theory Spec2Isabelle
  imports Complex_Main
begin

section \<open>Data model of gamebox.py\<close>

text \<open>
  Exceptions that cross the functions modelled here. \<open>OSError\<close> stands for the whole
  \<^verbatim>\<open>OSError\<close> family (\<^verbatim>\<open>FileNotFoundError\<close>, \<^verbatim>\<open>urllib.error.URLError\<close>, ...);
  \<open>PygameError\<close> is \<^verbatim>\<open>pygame.error\<close>, a \<^verbatim>\<open>RuntimeError\<close> and so not an \<^verbatim>\<open>OSError\<close>;
  \<open>HTTPException\<close> stands for the \<^verbatim>\<open>http.client.HTTPException\<close> family
  (\<^verbatim>\<open>http.client.InvalidURL\<close>, ...), not an \<^verbatim>\<open>OSError\<close> either; \<open>ValueError\<close> carries its
  message.
\<close>

datatype pyexc = OSError | PygameError | HTTPException | ValueError string | ZeroDivisionError

text \<open>
  What an image shows, as the chain of pygame operations that produced it. The operations
  themselves (\<^verbatim>\<open>pygame.image.load\<close>, \<^verbatim>\<open>rotozoom\<close>, \<^verbatim>\<open>smoothscale\<close>, \<^verbatim>\<open>flip\<close>) are
  outside the repository and stay uninterpreted.
\<close>

datatype pixels =
    Decoded nat
  | Drawn nat
  | Rotozoom pixels int
  | Smoothscale pixels int int
  | FlipH pixels

text \<open>
  A \<^verbatim>\<open>pygame.Surface\<close>: \<open>sid\<close> is the object identity (what Python's \<^verbatim>\<open>id\<close> returns), so two
  surfaces are the same object exactly when they are equal as values of this type.
\<close>

datatype surface = Surface (sid: nat) (get_width: nat) (get_height: nat) (pixels: pixels)

text \<open>\<^verbatim>\<open>_ImageKey(key, flip=False, w=0, h=0, angle=0)\<close>, a named tuple.\<close>

datatype image_key =
  ImageKey (ik_key: string) (ik_flip: bool) (ik_w: int) (ik_h: int) (ik_angle: int)

text \<open>The content of a file on disk or behind a URL: image data that decodes, or not.\<close>

datatype filedata = ImageData nat nat nat | Garbage

text \<open>
  The process state the image cache works on: the class attribute
  \<^verbatim>\<open>_ImageCache._known_images\<close>, the allocator of object identities, the local files, and
  what is outside the program: what opening each URL gives (the content served, or the
  exception \<^verbatim>\<open>urllib\<close> raises: a \<^verbatim>\<open>URLError\<close>, which is an \<^verbatim>\<open>OSError\<close>, or one of another class
  such as \<^verbatim>\<open>http.client.InvalidURL\<close>), the size of the surface \<^verbatim>\<open>rotozoom\<close> returns, and what
  \<^verbatim>\<open>os.path.basename(urllib.parse.urlparse(url).path)\<close> gives for a URL (the file name, or the
  \<^verbatim>\<open>ValueError\<close> \<^verbatim>\<open>urlparse\<close> raises).
\<close>

record world =
  known_images :: "image_key \<rightharpoonup> surface"
  next_id :: nat
  files :: "string \<rightharpoonup> filedata"
  web :: "string \<Rightarrow> pyexc + filedata"
  rotozoom_size :: "nat \<Rightarrow> nat \<Rightarrow> int \<Rightarrow> nat \<times> nat"
  url_basename :: "string \<Rightarrow> pyexc + string"

datatype color_value = ColorInt int | ColorStr string | ColorRGB int int int

section \<open>Python floats\<close>

text \<open>
  A Python \<^verbatim>\<open>float\<close> is a real number that IEEE 754 binary64 represents, and an arithmetic
  operation on floats returns the exact result rounded to the nearest such number, ties to the
  even one. The functions below that compute with floats take the rounding as their first
  argument \<open>rnd\<close> and apply it to every sum, difference, product and quotient: with
  \<open>round_binary64\<close> they compute as Python does (for results in the normal range), with
  \<open>exact\<close> they compute in exact arithmetic. Negation, comparison and \<^verbatim>\<open>max\<close> do not round.
\<close>

definition exact :: "real \<Rightarrow> real" where
  "exact v = v"

definition round_half_even :: "real \<Rightarrow> int" where
  "round_half_even v =
     (let f = \<lfloor>v\<rfloor>; d = v - of_int f
      in if d < 1 / 2 then f else if 1 / 2 < d then f + 1 else if even f then f else f + 1)"

text \<open>
  A positive \<open>v\<close> scaled into \<open>[1, 2)\<close> by powers of two, in at most \<open>n\<close> steps: the result
  \<open>(m, s)\<close> has \<open>v = m * s\<close>, with \<open>s\<close> the power of two.
\<close>

fun binade_scale :: "nat \<Rightarrow> real \<Rightarrow> real \<Rightarrow> real \<times> real" where
  "binade_scale 0 v s = (v, s)"
| "binade_scale (Suc n) v s =
     (if 2 \<le> v then binade_scale n (v / 2) (s * 2)
      else if v < 1 then binade_scale n (v * 2) (s / 2)
      else (v, s))"

text \<open>
  Rounding to 53 significant bits: the significand \<open>m\<close> times \<open>2 ^ 52\<close> is rounded to an
  integer. Binary64 has no exponent beyond 1100 in size.
\<close>

definition round_binary64 :: "real \<Rightarrow> real" where
  "round_binary64 v =
     (if v = 0 then 0
      else (let (m, s) = binade_scale 1100 \<bar>v\<bar> 1;
                r = of_int (round_half_even (m * 4503599627370496)) * s / 4503599627370496
            in if v < 0 then - r else r))"

section \<open>SpriteBox\<close>

text \<open>
  The fields of a \<^verbatim>\<open>SpriteBox\<close>: \<open>sb_x\<close> is \<^verbatim>\<open>self.x\<close>, \<open>sb_w\<close> is \<^verbatim>\<open>self._w\<close>, \<open>sb_key\<close> is
  \<^verbatim>\<open>self._key\<close>, and so on.
\<close>

record spritebox =
  sb_x :: real
  sb_y :: real
  sb_speedx :: real
  sb_speedy :: real
  sb_key :: "image_key option"
  sb_image :: "surface option"
  sb_color :: "color_value option"
  sb_w :: real
  sb_h :: real

section \<open>SpriteBox geometry\<close>

definition sb_left :: "(real \<Rightarrow> real) \<Rightarrow> spritebox \<Rightarrow> real" where
  "sb_left rnd b = rnd (sb_x b - rnd (sb_w b / 2))"

definition sb_right :: "(real \<Rightarrow> real) \<Rightarrow> spritebox \<Rightarrow> real" where
  "sb_right rnd b = rnd (sb_x b + rnd (sb_w b / 2))"

definition sb_top :: "(real \<Rightarrow> real) \<Rightarrow> spritebox \<Rightarrow> real" where
  "sb_top rnd b = rnd (sb_y b - rnd (sb_h b / 2))"

definition sb_bottom :: "(real \<Rightarrow> real) \<Rightarrow> spritebox \<Rightarrow> real" where
  "sb_bottom rnd b = rnd (sb_y b + rnd (sb_h b / 2))"

text \<open>
  \<^verbatim>\<open>SpriteBox.from_color(x, y, color, width, height)\<close>: the \<^verbatim>\<open>elif color is not None\<close> branch
  of \<^verbatim>\<open>__init__\<close>, with both sizes given.
\<close>

definition from_color :: "real \<Rightarrow> real \<Rightarrow> color_value \<Rightarrow> real \<Rightarrow> real \<Rightarrow> spritebox" where
  "from_color x y c width height =
     \<lparr>sb_x = x, sb_y = y, sb_speedx = 0, sb_speedy = 0, sb_key = None, sb_image = None,
      sb_color = Some c, sb_w = width, sb_h = height\<rparr>"

text \<open>
  \<^verbatim>\<open>overlap(self, other, padding=0, padding2=None)\<close>. The two-element list it returns is a
  pair here; \<^verbatim>\<open>max(l, r, t, b)\<close> is the nested maximum.
\<close>

definition overlap ::
  "(real \<Rightarrow> real) \<Rightarrow> spritebox \<Rightarrow> spritebox \<Rightarrow> real \<Rightarrow> real option \<Rightarrow> real \<times> real" where
  "overlap rnd self other padding padding2 =
     (let padding2 = (case padding2 of None \<Rightarrow> padding | Some p \<Rightarrow> p);
          l = rnd (rnd (sb_left rnd other - sb_right rnd self) - padding);
          r = rnd (rnd (sb_left rnd self - sb_right rnd other) - padding);
          t = rnd (rnd (sb_top rnd other - sb_bottom rnd self) - padding2);
          b = rnd (rnd (sb_top rnd self - sb_bottom rnd other) - padding2);
          m = max (max (max l r) t) b
      in if m \<ge> 0 then (0, 0)
         else if m = l then (l, 0)
         else if m = r then (- r, 0)
         else if m = t then (0, t)
         else (0, - b))"

definition touches ::
  "(real \<Rightarrow> real) \<Rightarrow> spritebox \<Rightarrow> spritebox \<Rightarrow> real \<Rightarrow> real option \<Rightarrow> bool" where
  "touches rnd self other padding padding2 =
     (let padding2 = (case padding2 of None \<Rightarrow> padding | Some p \<Rightarrow> p);
          l = rnd (rnd (sb_left rnd other - sb_right rnd self) - padding);
          r = rnd (rnd (sb_left rnd self - sb_right rnd other) - padding);
          t = rnd (rnd (sb_top rnd other - sb_bottom rnd self) - padding2);
          b = rnd (rnd (sb_top rnd self - sb_bottom rnd other) - padding2)
      in max (max (max l r) t) b \<le> 0)"

text \<open>
  The mutating methods take the process state (the shared cache) and the box and return
  both, so that what a method leaves alone can be stated. \<^verbatim>\<open>move(x, y)\<close> is the default
  overload; \<^verbatim>\<open>move(coords)\<close> with a two-element list calls it with the two elements.
\<close>

definition move ::
  "(real \<Rightarrow> real) \<Rightarrow> world \<Rightarrow> spritebox \<Rightarrow> real \<Rightarrow> real \<Rightarrow> world \<times> spritebox" where
  "move rnd W self dx dy =
     (W, self\<lparr>sb_x := rnd (sb_x self + dx), sb_y := rnd (sb_y self + dy)\<rparr>)"

definition move_speed :: "(real \<Rightarrow> real) \<Rightarrow> world \<Rightarrow> spritebox \<Rightarrow> world \<times> spritebox" where
  "move_speed rnd W self = move rnd W self (sb_speedx self) (sb_speedy self)"

text \<open>
  \<^verbatim>\<open>move_to_stop_overlapping(self, other, padding, padding2)\<close>. The boxes are objects:
  \<open>boxes\<close> holds the \<^verbatim>\<open>SpriteBox\<close> objects of the process by identity, and \<open>self\<close> and \<open>other\<close>
  are the identities of two of them, the same one in the call
  \<^verbatim>\<open>b.move_to_stop_overlapping(b)\<close>. The method reads both objects and assigns to \<open>self\<close>; it
  returns the process state and the objects as they are afterwards.
\<close>

type_synonym sprites = "nat \<Rightarrow> spritebox"

definition move_to_stop_overlapping ::
  "(real \<Rightarrow> real) \<Rightarrow> world \<Rightarrow> sprites \<Rightarrow> nat \<Rightarrow> nat \<Rightarrow> real \<Rightarrow> real option
     \<Rightarrow> world \<times> sprites" where
  "move_to_stop_overlapping rnd W boxes self other padding padding2 =
     (let ov = overlap rnd (boxes self) (boxes other) padding padding2
      in if ov \<noteq> (0, 0) then
           (let (W1, s1) = move rnd W (boxes self) (fst ov) (snd ov);
                s2 = (if rnd (fst ov * sb_speedx s1) < 0 then s1\<lparr>sb_speedx := 0\<rparr> else s1);
                s3 = (if rnd (snd ov * sb_speedy s2) < 0 then s2\<lparr>sb_speedy := 0\<rparr> else s2)
            in (W1, boxes(self := s3)))
         else (W, boxes))"

text \<open>The four gaps of \<^verbatim>\<open>overlap\<close> and \<^verbatim>\<open>touches\<close>, named as the documentation names them.\<close>

definition pad_y :: "real \<Rightarrow> real option \<Rightarrow> real" where
  "pad_y padding padding2 = (case padding2 of None \<Rightarrow> padding | Some p \<Rightarrow> p)"

definition gap_l :: "(real \<Rightarrow> real) \<Rightarrow> spritebox \<Rightarrow> spritebox \<Rightarrow> real \<Rightarrow> real" where
  "gap_l rnd self other px = rnd (rnd (sb_left rnd other - sb_right rnd self) - px)"

definition gap_r :: "(real \<Rightarrow> real) \<Rightarrow> spritebox \<Rightarrow> spritebox \<Rightarrow> real \<Rightarrow> real" where
  "gap_r rnd self other px = rnd (rnd (sb_left rnd self - sb_right rnd other) - px)"

definition gap_t :: "(real \<Rightarrow> real) \<Rightarrow> spritebox \<Rightarrow> spritebox \<Rightarrow> real \<Rightarrow> real" where
  "gap_t rnd self other py = rnd (rnd (sb_top rnd other - sb_bottom rnd self) - py)"

definition gap_b :: "(real \<Rightarrow> real) \<Rightarrow> spritebox \<Rightarrow> spritebox \<Rightarrow> real \<Rightarrow> real" where
  "gap_b rnd self other py = rnd (rnd (sb_top rnd self - sb_bottom rnd other) - py)"

definition gap_m :: "(real \<Rightarrow> real) \<Rightarrow> spritebox \<Rightarrow> spritebox \<Rightarrow> real \<Rightarrow> real \<Rightarrow> real" where
  "gap_m rnd self other px py =
     Max {gap_l rnd self other px, gap_r rnd self other px, gap_t rnd self other py,
          gap_b rnd self other py}"

text \<open>The box after a push by \<open>(dx, dy)\<close> that may also have reset its speeds.\<close>

definition pushed :: "spritebox \<Rightarrow> real \<Rightarrow> real \<Rightarrow> real \<Rightarrow> real \<Rightarrow> spritebox" where
  "pushed s dx dy vx vy =
     s\<lparr>sb_x := sb_x s + dx, sb_y := sb_y s + dy, sb_speedx := vx, sb_speedy := vy\<rparr>"

section \<open>The image cache\<close>

definition cache_put :: "world \<Rightarrow> image_key \<Rightarrow> surface \<Rightarrow> world" where
  "cache_put W k s = W\<lparr>known_images := (known_images W)(k \<mapsto> s)\<rparr>"

text \<open>Python's \<^verbatim>\<open>str\<close> on a non-negative integer, and the key \<^verbatim>\<open>'__id__' + str(id(surface))\<close>.\<close>

fun str_nat :: "nat \<Rightarrow> string" where
  "str_nat n =
     (if n < 10 then [char_of (48 + n)] else str_nat (n div 10) @ [char_of (48 + n mod 10)])"

definition id_key :: "surface \<Rightarrow> string" where
  "id_key s = ''__id__'' @ str_nat (sid s)"

text \<open>\<^verbatim>\<open>sub in s\<close> on strings.\<close>

fun contains_str :: "string \<Rightarrow> string \<Rightarrow> bool" where
  "contains_str sub [] = (sub = [])"
| "contains_str sub (c # cs) = (take (length sub) (c # cs) = sub \<or> contains_str sub cs)"

subsection \<open>What pygame and the operating system do\<close>

text \<open>
  \<^verbatim>\<open>pygame.image.load(filename).convert_alpha()\<close> with a display set up: a missing file is a
  \<^verbatim>\<open>FileNotFoundError\<close>, data that does not decode is a \<^verbatim>\<open>pygame.error\<close>, and a decoded image
  is a new object.
\<close>

definition image_load :: "world \<Rightarrow> string \<Rightarrow> pyexc + surface \<times> world" where
  "image_load W filename =
     (case files W filename of
        None \<Rightarrow> Inl OSError
      | Some Garbage \<Rightarrow> Inl PygameError
      | Some (ImageData iw ih px) \<Rightarrow>
          Inr (Surface (next_id W) iw ih (Decoded px), W\<lparr>next_id := Suc (next_id W)\<rparr>))"

text \<open>\<^verbatim>\<open>pygame.transform.rotozoom(base, angle, 1)\<close>: a new surface of the size pygame chooses.\<close>

definition rotozoom :: "world \<Rightarrow> surface \<Rightarrow> int \<Rightarrow> surface \<times> world" where
  "rotozoom W base angle =
     (let (rw, rh) = rotozoom_size W (get_width base) (get_height base) angle
      in (Surface (next_id W) rw rh (Rotozoom (pixels base) angle),
          W\<lparr>next_id := Suc (next_id W)\<rparr>))"

text \<open>
  \<^verbatim>\<open>pygame.transform.smoothscale(base, (w, h))\<close>: a new surface of exactly that size; a negative
  size is a \<^verbatim>\<open>ValueError\<close>.
\<close>

definition smoothscale :: "world \<Rightarrow> surface \<Rightarrow> int \<Rightarrow> int \<Rightarrow> pyexc + surface \<times> world" where
  "smoothscale W base w h =
     (if w < 0 \<or> h < 0 then Inl (ValueError ''Cannot scale to negative size'')
      else Inr (Surface (next_id W) (nat w) (nat h) (Smoothscale (pixels base) w h),
                W\<lparr>next_id := Suc (next_id W)\<rparr>))"

text \<open>\<^verbatim>\<open>pygame.transform.flip(base, True, False)\<close>: a new surface of the same size.\<close>

definition transform_flip :: "world \<Rightarrow> surface \<Rightarrow> surface \<times> world" where
  "transform_flip W base =
     (Surface (next_id W) (get_width base) (get_height base) (FlipH (pixels base)),
      W\<lparr>next_id := Suc (next_id W)\<rparr>)"

text \<open>
  \<^verbatim>\<open>urllib.request.urlretrieve(url, filename)\<close>: one attempt. Opening the URL raises what the
  outside gives for it, of whatever class; then the local file is written, which is an
  \<^verbatim>\<open>OSError\<close> for the empty name.
\<close>

definition urlretrieve :: "world \<Rightarrow> string \<Rightarrow> string \<Rightarrow> pyexc + world" where
  "urlretrieve W url filename =
     (case web W url of
        Inl e \<Rightarrow> Inl e
      | Inr d \<Rightarrow> if filename = [] then Inl OSError
                else Inr (W\<lparr>files := (files W)(filename \<mapsto> d)\<rparr>))"

subsection \<open>\<^verbatim>\<open>_ImageCache\<close>\<close>

text \<open>
  A function that raises returns \<open>Inl\<close> of the exception; the process state at the raise is not
  kept, since no caller modelled here goes on after one.
\<close>

definition cache_surface :: "world \<Rightarrow> surface \<Rightarrow> world" where
  "cache_surface W surface =
     (let sid_key = id_key surface; key = ImageKey sid_key False 0 0 0
      in if known_images W key = None then
           cache_put (cache_put W key surface)
             (ImageKey sid_key False (int (get_width surface)) (int (get_height surface)) 0) surface
         else W)"

definition get_filename :: "world \<Rightarrow> string \<Rightarrow> pyexc + surface \<times> world" where
  "get_filename W filename =
     (case image_load W filename of
        Inl e \<Rightarrow> Inl e
      | Inr (img, W1) \<Rightarrow>
          (let W2 = cache_put W1 (ImageKey filename False 0 0 0) img;
               W3 = cache_put W2
                      (ImageKey filename False (int (get_width img)) (int (get_height img)) 0)
                      img
           in Inr (img, cache_surface W3 img)))"

definition get_url :: "world \<Rightarrow> string \<Rightarrow> pyexc + surface \<times> world" where
  "get_url W url =
     (case url_basename W url of
        Inl e \<Rightarrow> Inl e
      | Inr filename \<Rightarrow>
          (case (if files W filename = None then
                   urlretrieve W (if contains_str ''://'' url then url else ''http://'' @ url)
                     filename
                 else Inr W) of
             Inl e \<Rightarrow> Inl e
           | Inr W1 \<Rightarrow> get_filename W1 filename))"

definition fetch_error_message :: "string \<Rightarrow> string" where
  "fetch_error_message filename_or_url =
     ''An error occurred while fetching image, are you sure the file/website name is \"''
       @ filename_or_url @ ''\"?''"

definition load_filename_or_url :: "world \<Rightarrow> string \<Rightarrow> pyexc + surface \<times> world" where
  "load_filename_or_url W filename_or_url =
     (case known_images W (ImageKey filename_or_url False 0 0 0) of
        Some img \<Rightarrow> Inr (img, W)
      | None \<Rightarrow>
          (case (if files W filename_or_url \<noteq> None then get_filename W filename_or_url
                 else get_url W filename_or_url) of
             Inl OSError \<Rightarrow> Inl (ValueError (fetch_error_message filename_or_url))
           | Inl e \<Rightarrow> Inl e
           | Inr r \<Rightarrow> Inr r))"

text \<open>
  \<^verbatim>\<open>get_transform(key, flip=False, w=0, h=0, angle=0)\<close>. The first \<open>case\<close> is the
  \<^verbatim>\<open>if/elif\<close> chain that computes \<^verbatim>\<open>ans\<close>; what follows is the final block that also caches the
  answer under the image's own width and height when the request was for the default size.
\<close>

function get_transform ::
  "world \<Rightarrow> string \<Rightarrow> bool \<Rightarrow> int \<Rightarrow> int \<Rightarrow> int \<Rightarrow> pyexc + surface \<times> world" where
  "get_transform W key flip w h angle =
     (case
        (case known_images W (ImageKey key flip w h angle) of
           Some ans \<Rightarrow> Inr (ans, W)
         | None \<Rightarrow>
             if angle \<noteq> 0 then
               (case get_transform W key flip w h 0 of
                  Inl e \<Rightarrow> Inl e
                | Inr (base, W1) \<Rightarrow>
                    (let (img, W2) = rotozoom W1 base angle
                     in Inr (img, cache_put W2 (ImageKey key flip w h angle) img)))
             else if w \<noteq> 0 \<or> h \<noteq> 0 then
               (case get_transform W key flip 0 0 0 of
                  Inl e \<Rightarrow> Inl e
                | Inr (base, W1) \<Rightarrow>
                    (case smoothscale W1 base w h of
                       Inl e \<Rightarrow> Inl e
                     | Inr (img, W2) \<Rightarrow>
                         Inr (img, cache_put W2 (ImageKey key flip w h angle) img)))
             else if flip then
               (case get_transform W key False 0 0 0 of
                  Inl e \<Rightarrow> Inl e
                | Inr (base, W1) \<Rightarrow>
                    (let (img, W2) = transform_flip W1 base
                     in Inr (img, cache_put W2 (ImageKey key flip w h angle) img)))
             else
               (case load_filename_or_url W key of
                  Inl e \<Rightarrow> Inl e
                | Inr (img, W1) \<Rightarrow> Inr (img, cache_put W1 (ImageKey key flip w h angle) img)))
      of
        Inl e \<Rightarrow> Inl e
      | Inr (ans, W3) \<Rightarrow>
          if w = 0 \<and> h = 0 then
            (if angle \<noteq> 0 then
               (case get_transform W3 key flip w h 0 of
                  Inl e \<Rightarrow> Inl e
                | Inr (tmp, W4) \<Rightarrow>
                    Inr (ans, cache_put W4
                           (ImageKey key flip (int (get_width tmp)) (int (get_height tmp)) angle)
                           ans))
             else
               Inr (ans, cache_put W3
                      (ImageKey key flip (int (get_width ans)) (int (get_height ans)) angle) ans))
          else Inr (ans, W3))"
  by pat_completeness auto
termination
  by (relation "measure (\<lambda>(W, key, flip, w, h, angle).
        (if angle \<noteq> 0 then 4 else 0) + (if w \<noteq> 0 \<or> h \<noteq> 0 then 2 else 0)
        + (if flip then 1 else (0::nat)))") auto

section \<open>The two halves of \<^verbatim>\<open>get_transform\<close>\<close>

text \<open>
  The body of \<^verbatim>\<open>get_transform\<close> cut in two, with the recursive calls left as calls of
  \<open>get_transform\<close>: the \<^verbatim>\<open>elif\<close> chain for a key that is not cached, and the final block that
  stores the answer under the pixel size. Lemma \<open>get_transform_unfold\<close> puts them together
  again.
\<close>

definition resolve_miss ::
  "world \<Rightarrow> string \<Rightarrow> bool \<Rightarrow> int \<Rightarrow> int \<Rightarrow> int \<Rightarrow> pyexc + surface \<times> world" where
  "resolve_miss W key flip w h angle =
     (if angle \<noteq> 0 then
        (case get_transform W key flip w h 0 of
           Inl e \<Rightarrow> Inl e
         | Inr (base, W1) \<Rightarrow>
             (let (img, W2) = rotozoom W1 base angle
              in Inr (img, cache_put W2 (ImageKey key flip w h angle) img)))
      else if w \<noteq> 0 \<or> h \<noteq> 0 then
        (case get_transform W key flip 0 0 0 of
           Inl e \<Rightarrow> Inl e
         | Inr (base, W1) \<Rightarrow>
             (case smoothscale W1 base w h of
                Inl e \<Rightarrow> Inl e
              | Inr (img, W2) \<Rightarrow> Inr (img, cache_put W2 (ImageKey key flip w h angle) img)))
      else if flip then
        (case get_transform W key False 0 0 0 of
           Inl e \<Rightarrow> Inl e
         | Inr (base, W1) \<Rightarrow>
             (let (img, W2) = transform_flip W1 base
              in Inr (img, cache_put W2 (ImageKey key flip w h angle) img)))
      else
        (case load_filename_or_url W key of
           Inl e \<Rightarrow> Inl e
         | Inr (img, W1) \<Rightarrow> Inr (img, cache_put W1 (ImageKey key flip w h angle) img)))"

definition cache_at_size ::
  "world \<Rightarrow> string \<Rightarrow> bool \<Rightarrow> int \<Rightarrow> int \<Rightarrow> int \<Rightarrow> surface \<Rightarrow> pyexc + surface \<times> world" where
  "cache_at_size W3 key flip w h angle ans =
     (if w = 0 \<and> h = 0 then
        (if angle \<noteq> 0 then
           (case get_transform W3 key flip w h 0 of
              Inl e \<Rightarrow> Inl e
            | Inr (tmp, W4) \<Rightarrow>
                Inr (ans, cache_put W4
                       (ImageKey key flip (int (get_width tmp)) (int (get_height tmp)) angle) ans))
         else
           Inr (ans, cache_put W3
                  (ImageKey key flip (int (get_width ans)) (int (get_height ans)) angle) ans))
      else Inr (ans, W3))"

section \<open>SpriteBox and the cache\<close>

text \<open>An image given to a \<^verbatim>\<open>SpriteBox\<close>: \<^verbatim>\<open>str | Surface\<close>.\<close>

datatype image_ref = Name string | Surf surface

text \<open>Python's \<^verbatim>\<open>int\<close> on a float truncates towards zero.\<close>

definition py_int :: "real \<Rightarrow> int" where
  "py_int r = (if r < 0 then \<lceil>r\<rceil> else \<lfloor>r\<rfloor>)"

text \<open>
  \<^verbatim>\<open>SpriteBox._set_key(name, flip, width, height, angle)\<close>. The names \<open>width1\<close>, \<open>height1\<close>,
  \<open>angle1\<close> are the rounded values, \<open>width2\<close> and \<open>height2\<close> the ones stored in the key.
\<close>

definition set_key ::
  "(real \<Rightarrow> real) \<Rightarrow> world \<Rightarrow> spritebox \<Rightarrow> image_ref \<Rightarrow> bool \<Rightarrow> real \<Rightarrow> real \<Rightarrow> real
     \<Rightarrow> pyexc + world \<times> spritebox" where
  "set_key rnd W self name flip width height angle =
     (let (W0, key) = (case name of Surf s \<Rightarrow> (cache_surface W s, id_key s) | Name n \<Rightarrow> (W, n));
          width1 = py_int (rnd (width + 0.5));
          height1 = py_int (rnd (height + 0.5));
          angle1 = ((py_int angle mod 360) + 360) mod 360
      in case get_transform W0 key flip width1 height1 0 of
           Inl e \<Rightarrow> Inl e
         | Inr (unrot, W1) \<Rightarrow>
             (let width2 = (if width1 = 0 \<and> height1 = 0 then int (get_width unrot) else width1);
                  height2 = (if width1 = 0 \<and> height1 = 0 then int (get_height unrot) else height1)
              in case get_transform W1 key flip width2 height2 angle1 of
                   Inl e \<Rightarrow> Inl e
                 | Inr (img, W2) \<Rightarrow>
                     Inr (W2, self\<lparr>sb_key := Some (ImageKey key flip width2 height2 angle1),
                                    sb_image := Some img, sb_color := None,
                                    sb_w := real (get_width img), sb_h := real (get_height img)\<rparr>)))"

text \<open>\<^verbatim>\<open>scale_by\<close>, and the setters of \<^verbatim>\<open>width\<close>, \<^verbatim>\<open>height\<close>, \<^verbatim>\<open>size\<close>, \<^verbatim>\<open>image\<close> and \<^verbatim>\<open>color\<close>.\<close>

definition scale_by :: "(real \<Rightarrow> real) \<Rightarrow> world \<Rightarrow> spritebox \<Rightarrow> real \<Rightarrow> pyexc + world \<times> spritebox" where
  "scale_by rnd W self multiplier =
     (case sb_key self of
        None \<Rightarrow>
          Inr (W, self\<lparr>sb_w := rnd (sb_w self * multiplier), sb_h := rnd (sb_h self * multiplier)\<rparr>)
      | Some key \<Rightarrow>
          set_key rnd W self (Name (ik_key key)) (ik_flip key) (rnd (real_of_int (ik_w key) * multiplier))
            (rnd (real_of_int (ik_h key) * multiplier)) (real_of_int (ik_angle key)))"

definition set_width :: "(real \<Rightarrow> real) \<Rightarrow> world \<Rightarrow> spritebox \<Rightarrow> real \<Rightarrow> pyexc + world \<times> spritebox" where
  "set_width rnd W self v =
     (if sb_w self = 0 then Inl ZeroDivisionError else scale_by rnd W self (rnd (v / sb_w self)))"

definition set_height :: "(real \<Rightarrow> real) \<Rightarrow> world \<Rightarrow> spritebox \<Rightarrow> real \<Rightarrow> pyexc + world \<times> spritebox" where
  "set_height rnd W self v =
     (if sb_h self = 0 then Inl ZeroDivisionError else scale_by rnd W self (rnd (v / sb_h self)))"

definition set_size :: "(real \<Rightarrow> real) \<Rightarrow> world \<Rightarrow> spritebox \<Rightarrow> real \<times> real \<Rightarrow> pyexc + world \<times> spritebox" where
  "set_size rnd W self v =
     (case (sb_image self, sb_key self) of
        (Some img, Some key) \<Rightarrow>
          set_key rnd W self (Name (ik_key key)) (ik_flip key) (fst v) (snd v)
            (real_of_int (ik_angle key))
      | _ \<Rightarrow> Inr (W, self\<lparr>sb_w := fst v, sb_h := snd v\<rparr>))"

definition set_image :: "(real \<Rightarrow> real) \<Rightarrow> world \<Rightarrow> spritebox \<Rightarrow> image_ref \<Rightarrow> pyexc + world \<times> spritebox" where
  "set_image rnd W self v =
     (case sb_key self of
        Some key \<Rightarrow>
          set_key rnd W self v (ik_flip key) (real_of_int (ik_w key)) (real_of_int (ik_h key))
            (real_of_int (ik_angle key))
      | None \<Rightarrow> set_key rnd W self v False 0 0 0)"

definition set_color :: "world \<Rightarrow> spritebox \<Rightarrow> color_value \<Rightarrow> world \<times> spritebox" where
  "set_color W self v = (W, self\<lparr>sb_image := None, sb_key := None, sb_color := Some v\<rparr>)"

definition full_size :: "(real \<Rightarrow> real) \<Rightarrow> world \<Rightarrow> spritebox \<Rightarrow> pyexc + world \<times> spritebox" where
  "full_size rnd W self =
     (case sb_key self of
        None \<Rightarrow> Inr (W, self)
      | Some key \<Rightarrow>
          set_key rnd W self (Name (ik_key key)) (ik_flip key) 0 0 (real_of_int (ik_angle key)))"

definition flip :: "(real \<Rightarrow> real) \<Rightarrow> world \<Rightarrow> spritebox \<Rightarrow> pyexc + world \<times> spritebox" where
  "flip rnd W self =
     (case sb_key self of
        None \<Rightarrow> Inr (W, self)
      | Some key \<Rightarrow>
          set_key rnd W self (Name (ik_key key)) (\<not> ik_flip key) (real_of_int (ik_w key))
            (real_of_int (ik_h key)) (real_of_int (ik_angle key)))"

definition rotate :: "(real \<Rightarrow> real) \<Rightarrow> world \<Rightarrow> spritebox \<Rightarrow> real \<Rightarrow> pyexc + world \<times> spritebox" where
  "rotate rnd W self angle =
     (case sb_key self of
        None \<Rightarrow> Inr (W, self)
      | Some key \<Rightarrow>
          set_key rnd W self (Name (ik_key key)) (ik_flip key) (real_of_int (ik_w key))
            (real_of_int (ik_h key)) (rnd (real_of_int (ik_angle key) + angle)))"

text \<open>
  \<^verbatim>\<open>SpriteBox.__init__(x, y, image, None, w, h)\<close> with an image: the
  \<^verbatim>\<open>if image is not None\<close> branch. The fields \<^verbatim>\<open>_set_key\<close> assigns have no value before it.
\<close>

definition init_image ::
  "(real \<Rightarrow> real) \<Rightarrow> world \<Rightarrow> real \<Rightarrow> real \<Rightarrow> image_ref \<Rightarrow> real option \<Rightarrow> real option \<Rightarrow> pyexc + world \<times> spritebox" where
  "init_image rnd W x y img w h =
     (case set_key rnd W \<lparr>sb_x = x, sb_y = y, sb_speedx = 0, sb_speedy = 0, sb_key = None,
                      sb_image = None, sb_color = None, sb_w = 0, sb_h = 0\<rparr> img False 0 0 0 of
        Inl e \<Rightarrow> Inl e
      | Inr (W1, self) \<Rightarrow>
          (case w of
             Some wv \<Rightarrow>
               (case h of Some hv \<Rightarrow> set_size rnd W1 self (wv, hv) | None \<Rightarrow> set_width rnd W1 self wv)
           | None \<Rightarrow> (case h of Some hv \<Rightarrow> set_height rnd W1 self hv | None \<Rightarrow> Inr (W1, self))))"

definition from_image :: "(real \<Rightarrow> real) \<Rightarrow> world \<Rightarrow> real \<Rightarrow> real \<Rightarrow> image_ref \<Rightarrow> pyexc + world \<times> spritebox" where
  "from_image rnd W x y filename_or_url =
     (case filename_or_url of
        Surf s \<Rightarrow> init_image rnd (cache_surface W s) x y (Surf s) None None
      | Name n \<Rightarrow>
          (case load_filename_or_url W n of
             Inl e \<Rightarrow> Inl e
           | Inr (img, W1) \<Rightarrow> init_image rnd W1 x y (Surf img) None None))"

text \<open>
  The methods that assign a new key to a box, as one type, so that a statement can range
  over all of them.
\<close>

datatype mutator =
    Flip
  | Rotate real
  | Scale_by real
  | Full_size
  | Set_size real real
  | Set_width real
  | Set_height real
  | Set_image image_ref

fun mutate ::
  "(real \<Rightarrow> real) \<Rightarrow> mutator \<Rightarrow> world \<Rightarrow> spritebox \<Rightarrow> pyexc + world \<times> spritebox" where
  "mutate rnd Flip W self = flip rnd W self"
| "mutate rnd (Rotate a) W self = rotate rnd W self a"
| "mutate rnd (Scale_by m) W self = scale_by rnd W self m"
| "mutate rnd Full_size W self = full_size rnd W self"
| "mutate rnd (Set_size wv hv) W self = set_size rnd W self (wv, hv)"
| "mutate rnd (Set_width v) W self = set_width rnd W self v"
| "mutate rnd (Set_height v) W self = set_height rnd W self v"
| "mutate rnd (Set_image v) W self = set_image rnd W self v"

section \<open>Predicates on the cache\<close>

text \<open>
  The cache is settled for a key when a call of \<^verbatim>\<open>get_transform\<close> with that key finds every
  entry it would write already there: the key itself and, for a request at the default size,
  the zero-angle intermediate and the entries under its pixel size.
\<close>

definition settled :: "world \<Rightarrow> string \<Rightarrow> bool \<Rightarrow> int \<Rightarrow> int \<Rightarrow> int \<Rightarrow> surface \<Rightarrow> bool" where
  "settled W k f w h a r \<longleftrightarrow>
     known_images W (ImageKey k f w h a) = Some r \<and>
     (w = 0 \<and> h = 0 \<longrightarrow>
        (\<exists>tmp. known_images W (ImageKey k f 0 0 0) = Some tmp \<and>
           known_images W (ImageKey k f (int (get_width tmp)) (int (get_height tmp)) 0) = Some tmp \<and>
           known_images W (ImageKey k f (int (get_width tmp)) (int (get_height tmp)) a) = Some r))"

text \<open>
  Every unrotated entry stored under an explicit size holds an image of that size.
\<close>

definition cache_ok :: "world \<Rightarrow> bool" where
  "cache_ok W \<longleftrightarrow>
     (\<forall>k f w h r. (w \<noteq> 0 \<or> h \<noteq> 0) \<longrightarrow> known_images W (ImageKey k f w h 0) = Some r \<longrightarrow>
        int (get_width r) = w \<and> int (get_height r) = h)"

text \<open>
  What claim C10 says of a box and the cache: the box has a key and an image, the image is
  the cache's entry for the key, the entry for the key at angle 0 exists and has the width
  and height the key names, and the box's own size is the size of its image.
\<close>

definition key_matches_image :: "world \<Rightarrow> spritebox \<Rightarrow> bool" where
  "key_matches_image W self \<longleftrightarrow>
     (case (sb_key self, sb_image self) of
        (Some (ImageKey k f w h a), Some img) \<Rightarrow>
          known_images W (ImageKey k f w h a) = Some img \<and>
          sb_w self = real (get_width img) \<and> sb_h self = real (get_height img) \<and>
          (case known_images W (ImageKey k f w h 0) of
             Some unrot \<Rightarrow> w = int (get_width unrot) \<and> h = int (get_height unrot)
           | None \<Rightarrow> False)
      | _ \<Rightarrow> False)"

section \<open>A small process state to run the functions on\<close>

definition basename_of :: "string \<Rightarrow> string" where
  "basename_of u = rev (takeWhile (\<lambda>c. c \<noteq> CHR ''/'') (rev u))"

text \<open>
  In \<open>demo_world\<close> one URL serves an image; a URL with a space in it is refused by
  \<^verbatim>\<open>http.client\<close> with \<^verbatim>\<open>InvalidURL\<close>, and every other URL fails with a \<^verbatim>\<open>URLError\<close>.
  \<^verbatim>\<open>urlparse\<close> raises its \<^verbatim>\<open>ValueError\<close> for a reference with an opening bracket and no closing
  one.
\<close>

definition demo_web :: "string \<Rightarrow> pyexc + filedata" where
  "demo_web u =
     (if u = ''http://h/b.png'' then Inr (ImageData 3 4 9)
      else if CHR '' '' \<in> set u then Inl HTTPException
      else Inl OSError)"

definition demo_basename :: "string \<Rightarrow> pyexc + string" where
  "demo_basename u =
     (if CHR ''['' \<in> set u \<and> CHR '']'' \<notin> set u then Inl (ValueError ''Invalid IPv6 URL'')
      else Inr (basename_of u))"

definition demo_world :: world where
  "demo_world =
     \<lparr>known_images = Map.empty, next_id = 0,
      files = [''a.png'' \<mapsto> ImageData 10 20 7, ''bad.png'' \<mapsto> Garbage],
      web = demo_web,
      rotozoom_size = (\<lambda>w h a. (w + h, w + h)),
      url_basename = demo_basename\<rparr>"

text \<open>
  A property of the cache map is kept by the stores when it survives every store of an image
  that, at angle 0 and under an explicit size, has that size: the only stores
  \<^verbatim>\<open>get_transform\<close> and the loader make.
\<close>

definition kept_by_stores :: "((image_key \<rightharpoonup> surface) \<Rightarrow> bool) \<Rightarrow> bool" where
  "kept_by_stores I \<longleftrightarrow>
     (\<forall>m k f w h a s. I m \<longrightarrow>
        (a = 0 \<longrightarrow> w \<noteq> 0 \<or> h \<noteq> 0 \<longrightarrow> int (get_width s) = w \<and> int (get_height s) = h) \<longrightarrow>
        I (m(ImageKey k f w h a \<mapsto> s)))"

section \<open>The parts of \<^verbatim>\<open>_set_key\<close>\<close>

text \<open>
  Names for what \<^verbatim>\<open>_set_key\<close> computes on its way: the key string and the state after the
  surface has been registered, the rounded size and angle, the width and height it stores in
  the key, and the box it leaves. Lemma \<open>set_key_alt\<close> states \<open>set_key\<close> with them.
\<close>

definition ref_key :: "image_ref \<Rightarrow> string" where
  "ref_key name = (case name of Surf s \<Rightarrow> id_key s | Name n \<Rightarrow> n)"

definition ref_world :: "world \<Rightarrow> image_ref \<Rightarrow> world" where
  "ref_world W name = (case name of Surf s \<Rightarrow> cache_surface W s | Name n \<Rightarrow> W)"

definition round_px :: "(real \<Rightarrow> real) \<Rightarrow> real \<Rightarrow> int" where
  "round_px rnd v = py_int (rnd (v + 0.5))"

definition norm_angle :: "real \<Rightarrow> int" where
  "norm_angle angle = ((py_int angle mod 360) + 360) mod 360"

definition stored_w :: "int \<Rightarrow> int \<Rightarrow> surface \<Rightarrow> int" where
  "stored_w w1 h1 unrot = (if w1 = 0 \<and> h1 = 0 then int (get_width unrot) else w1)"

definition stored_h :: "int \<Rightarrow> int \<Rightarrow> surface \<Rightarrow> int" where
  "stored_h w1 h1 unrot = (if w1 = 0 \<and> h1 = 0 then int (get_height unrot) else h1)"

definition keyed :: "spritebox \<Rightarrow> image_key \<Rightarrow> surface \<Rightarrow> spritebox" where
  "keyed self k img = self\<lparr>sb_key := Some k, sb_image := Some img, sb_color := None,
     sb_w := real (get_width img), sb_h := real (get_height img)\<rparr>"

section \<open>Collision geometry: overlap, touches, move\<close>

lemma gap_m_eq:
  "gap_m rnd s b px py = max (max (max (gap_l rnd s b px) (gap_r rnd s b px)) (gap_t rnd s b py)) (gap_b rnd s b py)"
  by (simp add: gap_m_def max.commute max.left_commute)

lemma overlap_gaps:
  "overlap rnd s b px p2 =
     (let l = gap_l rnd s b px; r = gap_r rnd s b px; t = gap_t rnd s b (pad_y px p2); bb = gap_b rnd s b (pad_y px p2);
          m = gap_m rnd s b px (pad_y px p2)
      in if m \<ge> 0 then (0, 0) else if m = l then (l, 0) else if m = r then (- r, 0)
         else if m = t then (0, t) else (0, - bb))"
  by (simp add: overlap_def gap_m_eq gap_l_def gap_r_def gap_t_def gap_b_def pad_y_def Let_def)

lemma touches_gaps: "touches rnd s b px p2 = (gap_m rnd s b px (pad_y px p2) \<le> 0)"
  by (simp add: touches_def gap_m_eq gap_l_def gap_r_def gap_t_def gap_b_def pad_y_def Let_def)

lemma gap_m_cases:
  "gap_m rnd s b px py \<in> {gap_l rnd s b px, gap_r rnd s b px, gap_t rnd s b py, gap_b rnd s b py}"
  unfolding gap_m_def by (rule Max_in) simp_all

lemma gap_pushed:
  "gap_l exact (pushed s dx dy vx vy) b px = gap_l exact s b px - dx"
  "gap_r exact (pushed s dx dy vx vy) b px = gap_r exact s b px + dx"
  "gap_t exact (pushed s dx dy vx vy) b py = gap_t exact s b py - dy"
  "gap_b exact (pushed s dx dy vx vy) b py = gap_b exact s b py + dy"
  by (simp_all add: pushed_def gap_l_def gap_r_def gap_t_def gap_b_def
      sb_left_def sb_right_def sb_top_def sb_bottom_def exact_def)

lemma overlap_zero_if:
  "0 \<le> gap_m rnd s b px (pad_y px p2) \<Longrightarrow> overlap rnd s b px p2 = (0, 0)"
  by (simp add: overlap_gaps Let_def)

lemma gap_m_ge:
  "gap_l rnd s b px \<le> gap_m rnd s b px py" "gap_r rnd s b px \<le> gap_m rnd s b px py"
  "gap_t rnd s b py \<le> gap_m rnd s b px py" "gap_b rnd s b py \<le> gap_m rnd s b px py"
  by (simp_all add: gap_m_eq)

lemma overlap_pushed:
  assumes "overlap exact s b px p2 \<noteq> (0, 0)"
  shows "overlap exact (pushed s (fst (overlap exact s b px p2)) (snd (overlap exact s b px p2)) vx vy) b px p2 = (0, 0)"
proof -
  let ?py = "pad_y px p2"
  let ?m = "gap_m exact s b px ?py"
  have neg: "?m < 0" using assms by (simp add: overlap_gaps Let_def split: if_splits)
  have "overlap exact s b px p2 = (gap_l exact s b px, 0) \<or> overlap exact s b px p2 = (- gap_r exact s b px, 0)
    \<or> overlap exact s b px p2 = (0, gap_t exact s b ?py) \<or> overlap exact s b px p2 = (0, - gap_b exact s b ?py)"
    using neg by (simp add: overlap_gaps Let_def)
  then consider (l) "overlap exact s b px p2 = (gap_l exact s b px, 0)"
    | (r) "overlap exact s b px p2 = (- gap_r exact s b px, 0)"
    | (t) "overlap exact s b px p2 = (0, gap_t exact s b ?py)"
    | (b) "overlap exact s b px p2 = (0, - gap_b exact s b ?py)"
    by blast
  then have "0 \<le> gap_m exact (pushed s (fst (overlap exact s b px p2)) (snd (overlap exact s b px p2)) vx vy) b px ?py"
  proof cases
    case l
    have "gap_l exact (pushed s (gap_l exact s b px) 0 vx vy) b px = 0" by (simp add: gap_pushed)
    then show ?thesis using l gap_m_ge(1) [of exact "pushed s (gap_l exact s b px) 0 vx vy" b px ?py] by simp
  next
    case r
    have "gap_r exact (pushed s (- gap_r exact s b px) 0 vx vy) b px = 0" by (simp add: gap_pushed)
    then show ?thesis using r gap_m_ge(2) [of exact "pushed s (- gap_r exact s b px) 0 vx vy" b px ?py] by simp
  next
    case t
    have "gap_t exact (pushed s 0 (gap_t exact s b ?py) vx vy) b ?py = 0" by (simp add: gap_pushed)
    then show ?thesis using t gap_m_ge(3) [of exact "pushed s 0 (gap_t exact s b ?py) vx vy" b ?py px] by simp
  next
    case b
    have "gap_b exact (pushed s 0 (- gap_b exact s b ?py) vx vy) b ?py = 0" by (simp add: gap_pushed)
    then show ?thesis using b gap_m_ge(4) [of exact "pushed s 0 (- gap_b exact s b ?py) vx vy" b ?py px] by simp
  qed
  then show ?thesis by (rule overlap_zero_if)
qed

lemma move_to_stop_overlapping_pushed:
  assumes "overlap exact (boxes self) (boxes other) px p2 \<noteq> (0, 0)"
  shows "\<exists>vx vy. move_to_stop_overlapping exact W boxes self other px p2 =
     (W, boxes(self := pushed (boxes self) (fst (overlap exact (boxes self) (boxes other) px p2))
                          (snd (overlap exact (boxes self) (boxes other) px p2)) vx vy))"
proof -
  let ?s = "boxes self"
  obtain dx dy where ov: "overlap exact ?s (boxes other) px p2 = (dx, dy)"
    by (cases "overlap exact ?s (boxes other) px p2")
  let ?vx = "if dx * sb_speedx ?s < 0 then 0 else sb_speedx ?s"
  let ?vy = "if dy * sb_speedy ?s < 0 then 0 else sb_speedy ?s"
  have "move_to_stop_overlapping exact W boxes self other px p2
      = (W, boxes(self := pushed ?s dx dy ?vx ?vy))"
    using assms unfolding ov
    by (simp add: move_to_stop_overlapping_def ov move_def Let_def pushed_def exact_def)
  then show ?thesis unfolding ov by auto
qed

text \<open>
  In exact arithmetic, and for two boxes that are two objects, \<open>move_to_stop_overlapping\<close> is
  idempotent: after one call the overlap of the pair is \<open>(0, 0)\<close>, and a second call changes
  nothing.
\<close>

lemma move_to_stop_overlapping_exact_idempotent:
  assumes "self \<noteq> other"
    and "move_to_stop_overlapping exact W boxes self other px p2 = (W1, boxes1)"
  shows "overlap exact (boxes1 self) (boxes1 other) px p2 = (0, 0) \<and>
     move_to_stop_overlapping exact W1 boxes1 self other px p2 = (W1, boxes1)"
proof -
  have "overlap exact (boxes1 self) (boxes1 other) px p2 = (0, 0)"
  proof (cases "overlap exact (boxes self) (boxes other) px p2 = (0, 0)")
    case True
    with assms(2) show ?thesis by (simp add: move_to_stop_overlapping_def Let_def)
  next
    case False
    from move_to_stop_overlapping_pushed [OF False, of W] assms(2)
    obtain vx vy where "boxes1 = boxes(self := pushed (boxes self)
        (fst (overlap exact (boxes self) (boxes other) px p2))
        (snd (overlap exact (boxes self) (boxes other) px p2)) vx vy)"
      by auto
    then show ?thesis using overlap_pushed [OF False] assms(1) by simp
  qed
  then show ?thesis by (simp add: move_to_stop_overlapping_def Let_def)
qed

text \<open>
  A box overlaps itself: in the call \<^verbatim>\<open>b.move_to_stop_overlapping(b)\<close> a box of positive size
  moves on every call, also in exact arithmetic. A 10 by 10 box at \<open>x = 0\<close> is at \<open>x = -10\<close>
  after one call and at \<open>x = -20\<close> after two.
\<close>

lemma overlap_same_box:
  assumes "0 < sb_w b" "0 < sb_h b" "0 \<le> px" "0 \<le> pad_y px p2"
  shows "overlap exact b b px p2 \<noteq> (0, 0)"
proof -
  have g: "gap_l exact b b px < 0" "gap_r exact b b px < 0"
    "gap_t exact b b (pad_y px p2) < 0" "gap_b exact b b (pad_y px p2) < 0"
    using assms
    by (simp_all add: gap_l_def gap_r_def gap_t_def gap_b_def sb_left_def sb_right_def
        sb_top_def sb_bottom_def exact_def)
  then have "gap_m exact b b px (pad_y px p2) < 0" by (simp add: gap_m_eq)
  with g show ?thesis by (simp add: overlap_gaps Let_def)
qed

lemma move_to_stop_overlapping_same_box:
  "move_to_stop_overlapping exact W (\<lambda>i. from_color 0 0 c 10 10) 0 0 0 None
     = (W, (\<lambda>i. from_color 0 0 c 10 10)(0 := (from_color 0 0 c 10 10)\<lparr>sb_x := - 10\<rparr>))"
  "move_to_stop_overlapping exact W
       ((\<lambda>i. from_color 0 0 c 10 10)(0 := (from_color 0 0 c 10 10)\<lparr>sb_x := - 10\<rparr>)) 0 0 0 None
     = (W, (\<lambda>i. from_color 0 0 c 10 10)(0 := (from_color 0 0 c 10 10)\<lparr>sb_x := - 20\<rparr>))"
  by (simp_all add: move_to_stop_overlapping_def overlap_def move_def from_color_def
      sb_left_def sb_right_def sb_top_def sb_bottom_def Let_def exact_def)

subsection \<open>Evaluating binary64 arithmetic\<close>

lemma binade_scale_numeral:
  "binade_scale (numeral k) v s =
     (if 2 \<le> v then binade_scale (pred_numeral k) (v / 2) (s * 2)
      else if v < 1 then binade_scale (pred_numeral k) (v * 2) (s / 2)
      else (v, s))"
  by (simp add: numeral_eq_Suc)

lemmas round_binary64_eval = round_binary64_def round_half_even_def binade_scale_numeral Let_def

lemma overlap_binary64_examples:
  "overlap round_binary64 (from_color 0 0 (ColorStr ''red'') 10 10)
     (from_color 20 0 (ColorStr ''blue'') 10 10) 0 None = (0, 0)"
  "\<not> touches round_binary64 (from_color 0 0 (ColorStr ''red'') 10 10)
     (from_color 20 0 (ColorStr ''blue'') 10 10) 0 None"
  "touches round_binary64 (from_color 0 0 (ColorStr ''red'') 10 10)
     ((from_color 20 0 (ColorStr ''blue'') 10 10)\<lparr>sb_x := round_binary64 (999 / 100)\<rparr>) 0 None"
  "overlap round_binary64 (from_color 0 0 (ColorStr ''red'') 10 10)
     ((from_color 20 0 (ColorStr ''blue'') 10 10)\<lparr>sb_x := round_binary64 (999 / 100)\<rparr>) 0 None
     = (- (5629499534213 / 562949953421312), 0)"
proof -
  define P where "P = from_color 0 0 (ColorStr ''red'') 10 10"
  define Q where "Q = from_color 20 0 (ColorStr ''blue'') 10 10"
  define Q2 where "Q2 = Q\<lparr>sb_x := round_binary64 (999 / 100)\<rparr>"
  have f_P: "sb_x P = 0" "sb_y P = 0" "sb_w P = 10" "sb_h P = 10"
    by (simp_all add: P_def from_color_def)
  have f_Q: "sb_x Q = 20" "sb_y Q = 0" "sb_w Q = 10" "sb_h Q = 10"
    by (simp_all add: Q_def from_color_def)
  have f_Q2: "sb_x Q2 = 5623870034678907 / 562949953421312" "sb_y Q2 = 0" "sb_w Q2 = 10" "sb_h Q2 = 10"
    by (simp_all add: Q2_def f_Q round_binary64_eval)
  have e_P: "sb_left round_binary64 P = - 5" "sb_right round_binary64 P = 5"
    "sb_top round_binary64 P = - 5" "sb_bottom round_binary64 P = 5"
    by (simp_all add: sb_left_def sb_right_def sb_top_def sb_bottom_def f_P round_binary64_eval)
  have e_Q: "sb_left round_binary64 Q = 15" "sb_right round_binary64 Q = 25"
    "sb_top round_binary64 Q = - 5" "sb_bottom round_binary64 Q = 5"
    by (simp_all add: sb_left_def sb_right_def sb_top_def sb_bottom_def f_Q round_binary64_eval)
  have g_pq: "gap_l round_binary64 P Q 0 = 10" "gap_r round_binary64 P Q 0 = - 30"
    "gap_t round_binary64 P Q 0 = - 10" "gap_b round_binary64 P Q 0 = - 10"
    by (simp_all add: gap_l_def gap_r_def gap_t_def gap_b_def e_P e_Q round_binary64_eval)
  have m_pq: "gap_m round_binary64 P Q 0 0 = 10"
    by (simp add: gap_m_eq g_pq)
  have o_pq: "overlap round_binary64 P Q 0 None = (0, 0)"
    by (simp add: overlap_gaps pad_y_def Let_def g_pq m_pq)
  have t_pq: "touches round_binary64 P Q 0 None = False"
    by (simp add: touches_gaps pad_y_def m_pq)
  have e_Q2: "sb_left round_binary64 Q2 = 2809120267572347 / 562949953421312" "sb_right round_binary64 Q2 = 8438619801785467 / 562949953421312"
    "sb_top round_binary64 Q2 = - 5" "sb_bottom round_binary64 Q2 = 5"
    by (simp_all add: sb_left_def sb_right_def sb_top_def sb_bottom_def f_Q2 round_binary64_eval)
  have g_pq2: "gap_l round_binary64 P Q2 0 = - (5629499534213 / 562949953421312)" "gap_r round_binary64 P Q2 0 = - (2813342392223007 / 140737488355328)"
    "gap_t round_binary64 P Q2 0 = - 10" "gap_b round_binary64 P Q2 0 = - 10"
    by (simp_all add: gap_l_def gap_r_def gap_t_def gap_b_def e_P e_Q2 round_binary64_eval)
  have m_pq2: "gap_m round_binary64 P Q2 0 0 = - (5629499534213 / 562949953421312)"
    by (simp add: gap_m_eq g_pq2)
  have o_pq2: "overlap round_binary64 P Q2 0 None = (- (5629499534213 / 562949953421312), 0)"
    by (simp add: overlap_gaps pad_y_def Let_def g_pq2 m_pq2)
  have t_pq2: "touches round_binary64 P Q2 0 None = True"
    by (simp add: touches_gaps pad_y_def m_pq2)
  show "overlap round_binary64 (from_color 0 0 (ColorStr ''red'') 10 10)
     (from_color 20 0 (ColorStr ''blue'') 10 10) 0 None = (0, 0)"
    using o_pq unfolding P_def Q_def .
  show "\<not> touches round_binary64 (from_color 0 0 (ColorStr ''red'') 10 10)
     (from_color 20 0 (ColorStr ''blue'') 10 10) 0 None"
    using t_pq unfolding P_def Q_def by simp
  show "touches round_binary64 (from_color 0 0 (ColorStr ''red'') 10 10)
     ((from_color 20 0 (ColorStr ''blue'') 10 10)\<lparr>sb_x := round_binary64 (999 / 100)\<rparr>) 0 None"
    using t_pq2 unfolding P_def Q_def Q2_def by simp
  show "overlap round_binary64 (from_color 0 0 (ColorStr ''red'') 10 10)
     ((from_color 20 0 (ColorStr ''blue'') 10 10)\<lparr>sb_x := round_binary64 (999 / 100)\<rparr>) 0 None
     = (- (5629499534213 / 562949953421312), 0)"
    using o_pq2 unfolding P_def Q_def Q2_def .
qed

text \<open>
  Claim C7. With \<open>l = other.left - self.right - paddingX\<close>, \<open>r = self.left - other.right - paddingX\<close>,
  \<open>t = other.top - self.bottom - paddingY\<close>, \<open>b = self.top - other.bottom - paddingY\<close> and
  \<open>m = max(l, r, t, b)\<close>: \<open>overlap\<close> returns \<open>(0, 0)\<close> when \<open>m \<ge> 0\<close>, and otherwise \<open>(l, 0)\<close>,
  \<open>(-r, 0)\<close>, \<open>(0, t)\<close> or \<open>(0, -b)\<close> for the first of \<open>l, r, t, b\<close> that equals \<open>m\<close> (one of them
  does); \<open>touches\<close> is \<open>m \<le> 0\<close>. This holds whatever the rounding of the arithmetic. Two 10 by
  10 boxes centred at \<open>(0, 0)\<close> and \<open>(20, 0)\<close> with padding 0 do not touch and their overlap is
  \<open>(0, 0)\<close>; with the second box at \<open>x = 9.99\<close> they touch and the push is on the x axis only,
  in exact arithmetic (the push is \<open>-0.01\<close>) and in binary64 (the push is the float next to it).
\<close>

theorem overlap_touches_by_gaps:
  "(0 \<le> gap_m rnd s b px (pad_y px p2) \<longrightarrow> overlap rnd s b px p2 = (0, 0)) \<and>
   (gap_m rnd s b px (pad_y px p2) < 0 \<and> gap_m rnd s b px (pad_y px p2) = gap_l rnd s b px
      \<longrightarrow> overlap rnd s b px p2 = (gap_l rnd s b px, 0)) \<and>
   (gap_m rnd s b px (pad_y px p2) < 0 \<and> gap_m rnd s b px (pad_y px p2) \<noteq> gap_l rnd s b px
      \<and> gap_m rnd s b px (pad_y px p2) = gap_r rnd s b px
      \<longrightarrow> overlap rnd s b px p2 = (- gap_r rnd s b px, 0)) \<and>
   (gap_m rnd s b px (pad_y px p2) < 0 \<and> gap_m rnd s b px (pad_y px p2) \<noteq> gap_l rnd s b px
      \<and> gap_m rnd s b px (pad_y px p2) \<noteq> gap_r rnd s b px
      \<and> gap_m rnd s b px (pad_y px p2) = gap_t rnd s b (pad_y px p2)
      \<longrightarrow> overlap rnd s b px p2 = (0, gap_t rnd s b (pad_y px p2))) \<and>
   (gap_m rnd s b px (pad_y px p2) < 0 \<and> gap_m rnd s b px (pad_y px p2) \<noteq> gap_l rnd s b px
      \<and> gap_m rnd s b px (pad_y px p2) \<noteq> gap_r rnd s b px
      \<and> gap_m rnd s b px (pad_y px p2) \<noteq> gap_t rnd s b (pad_y px p2)
      \<longrightarrow> gap_m rnd s b px (pad_y px p2) = gap_b rnd s b (pad_y px p2)
          \<and> overlap rnd s b px p2 = (0, - gap_b rnd s b (pad_y px p2))) \<and>
   touches rnd s b px p2 = (gap_m rnd s b px (pad_y px p2) \<le> 0) \<and>
   overlap exact (from_color 0 0 c 10 10) (from_color 20 0 c' 10 10) 0 None = (0, 0) \<and>
   \<not> touches exact (from_color 0 0 c 10 10) (from_color 20 0 c' 10 10) 0 None \<and>
   touches exact (from_color 0 0 c 10 10) ((from_color 20 0 c' 10 10)\<lparr>sb_x := 999 / 100\<rparr>) 0 None \<and>
   overlap exact (from_color 0 0 c 10 10) ((from_color 20 0 c' 10 10)\<lparr>sb_x := 999 / 100\<rparr>) 0 None
     = (- 1 / 100, 0) \<and>
   overlap round_binary64 (from_color 0 0 (ColorStr ''red'') 10 10)
     (from_color 20 0 (ColorStr ''blue'') 10 10) 0 None = (0, 0) \<and>
   \<not> touches round_binary64 (from_color 0 0 (ColorStr ''red'') 10 10)
     (from_color 20 0 (ColorStr ''blue'') 10 10) 0 None \<and>
   touches round_binary64 (from_color 0 0 (ColorStr ''red'') 10 10)
     ((from_color 20 0 (ColorStr ''blue'') 10 10)\<lparr>sb_x := round_binary64 (999 / 100)\<rparr>) 0 None \<and>
   overlap round_binary64 (from_color 0 0 (ColorStr ''red'') 10 10)
     ((from_color 20 0 (ColorStr ''blue'') 10 10)\<lparr>sb_x := round_binary64 (999 / 100)\<rparr>) 0 None
     = (- (5629499534213 / 562949953421312), 0)"
proof -
  have ex1: "overlap exact (from_color 0 0 c 10 10) (from_color 20 0 c' 10 10) 0 None = (0, 0)"
    by (simp add: overlap_def from_color_def sb_left_def sb_right_def sb_top_def sb_bottom_def
        Let_def exact_def)
  have ex2: "\<not> touches exact (from_color 0 0 c 10 10) (from_color 20 0 c' 10 10) 0 None"
    by (simp add: touches_def from_color_def sb_left_def sb_right_def sb_top_def sb_bottom_def
        Let_def exact_def)
  have ex3: "touches exact (from_color 0 0 c 10 10)
      ((from_color 20 0 c' 10 10)\<lparr>sb_x := 999 / 100\<rparr>) 0 None"
    by (simp add: touches_def from_color_def sb_left_def sb_right_def sb_top_def sb_bottom_def
        Let_def exact_def)
  have ex4: "overlap exact (from_color 0 0 c 10 10)
      ((from_color 20 0 c' 10 10)\<lparr>sb_x := 999 / 100\<rparr>) 0 None = (- 1 / 100, 0)"
    by (simp add: overlap_def from_color_def sb_left_def sb_right_def sb_top_def sb_bottom_def
        Let_def exact_def)
  note fl = overlap_binary64_examples
  let ?m = "gap_m rnd s b px (pad_y px p2)"
  have last: "?m \<noteq> gap_l rnd s b px \<Longrightarrow> ?m \<noteq> gap_r rnd s b px \<Longrightarrow> ?m \<noteq> gap_t rnd s b (pad_y px p2)
     \<Longrightarrow> ?m = gap_b rnd s b (pad_y px p2)"
    using gap_m_cases [of rnd s b px "pad_y px p2"] by blast
  have gen: "(0 \<le> ?m \<longrightarrow> overlap rnd s b px p2 = (0, 0)) \<and>
   (?m < 0 \<and> ?m = gap_l rnd s b px \<longrightarrow> overlap rnd s b px p2 = (gap_l rnd s b px, 0)) \<and>
   (?m < 0 \<and> ?m \<noteq> gap_l rnd s b px \<and> ?m = gap_r rnd s b px
      \<longrightarrow> overlap rnd s b px p2 = (- gap_r rnd s b px, 0)) \<and>
   (?m < 0 \<and> ?m \<noteq> gap_l rnd s b px \<and> ?m \<noteq> gap_r rnd s b px \<and> ?m = gap_t rnd s b (pad_y px p2)
      \<longrightarrow> overlap rnd s b px p2 = (0, gap_t rnd s b (pad_y px p2))) \<and>
   (?m < 0 \<and> ?m \<noteq> gap_l rnd s b px \<and> ?m \<noteq> gap_r rnd s b px \<and> ?m \<noteq> gap_t rnd s b (pad_y px p2)
      \<longrightarrow> ?m = gap_b rnd s b (pad_y px p2) \<and> overlap rnd s b px p2 = (0, - gap_b rnd s b (pad_y px p2)))"
    using last by (simp add: overlap_gaps Let_def)
  show ?thesis
    using gen ex1 ex2 ex3 ex4 fl touches_gaps [of rnd s b px p2] by blast
qed

theorem overlap_touches_by_gaps_witness:
  "overlap exact (from_color 0 0 (ColorStr ''red'') 10 10) (from_color 3 1 (ColorStr ''blue'') 4 4) 0 None = (-4, 0)
   \<and> overlap exact (from_color 0 0 (ColorStr ''red'') 10 10) (from_color (-4) 0 (ColorStr ''blue'') 4 4) 0 None = (3, 0)
   \<and> overlap exact (from_color 0 0 (ColorStr ''red'') 10 10) (from_color 1 4 (ColorStr ''blue'') 4 4) 2 (Some 1) = (0, -4)
   \<and> overlap exact (from_color 0 0 (ColorStr ''red'') 10 10) (from_color 0 (-4) (ColorStr ''blue'') 4 4) 0 None = (0, 3)
   \<and> overlap exact (from_color 0 0 (ColorStr ''red'') 10 10) (from_color 7 0 (ColorStr ''blue'') 4 4) 0 None = (0, 0)
   \<and> touches exact (from_color 0 0 (ColorStr ''red'') 10 10) (from_color 7 0 (ColorStr ''blue'') 4 4) 0 None"
proof -
  let ?A = "from_color 0 0 (ColorStr ''red'') 10 10"
  have g: "gap_m exact ?A (from_color 3 1 (ColorStr ''blue'') 4 4) 0 (pad_y 0 None) = -4"
    "gap_l exact ?A (from_color 3 1 (ColorStr ''blue'') 4 4) 0 = -4"
    "gap_m exact ?A (from_color (-4) 0 (ColorStr ''blue'') 4 4) 0 (pad_y 0 None) = -3"
    "gap_l exact ?A (from_color (-4) 0 (ColorStr ''blue'') 4 4) 0 = -11"
    "gap_r exact ?A (from_color (-4) 0 (ColorStr ''blue'') 4 4) 0 = -3"
    "gap_m exact ?A (from_color 1 4 (ColorStr ''blue'') 4 4) 2 (pad_y 2 (Some 1)) = -4"
    "gap_l exact ?A (from_color 1 4 (ColorStr ''blue'') 4 4) 2 = -8"
    "gap_r exact ?A (from_color 1 4 (ColorStr ''blue'') 4 4) 2 = -10"
    "gap_t exact ?A (from_color 1 4 (ColorStr ''blue'') 4 4) (pad_y 2 (Some 1)) = -4"
    "gap_m exact ?A (from_color 0 (-4) (ColorStr ''blue'') 4 4) 0 (pad_y 0 None) = -3"
    "gap_l exact ?A (from_color 0 (-4) (ColorStr ''blue'') 4 4) 0 = -7"
    "gap_r exact ?A (from_color 0 (-4) (ColorStr ''blue'') 4 4) 0 = -7"
    "gap_t exact ?A (from_color 0 (-4) (ColorStr ''blue'') 4 4) (pad_y 0 None) = -11"
    "gap_b exact ?A (from_color 0 (-4) (ColorStr ''blue'') 4 4) (pad_y 0 None) = -3"
    "gap_m exact ?A (from_color 7 0 (ColorStr ''blue'') 4 4) 0 (pad_y 0 None) = 0"
    by (simp_all add: gap_m_eq gap_l_def gap_r_def gap_t_def gap_b_def pad_y_def from_color_def
        sb_left_def sb_right_def sb_top_def sb_bottom_def exact_def)
  show ?thesis
    using overlap_touches_by_gaps [of exact ?A "from_color 3 1 (ColorStr ''blue'') 4 4" 0 None]
      overlap_touches_by_gaps [of exact ?A "from_color (-4) 0 (ColorStr ''blue'') 4 4" 0 None]
      overlap_touches_by_gaps [of exact ?A "from_color 1 4 (ColorStr ''blue'') 4 4" 2 "Some 1"]
      overlap_touches_by_gaps [of exact ?A "from_color 0 (-4) (ColorStr ''blue'') 4 4" 0 None]
      overlap_touches_by_gaps [of exact ?A "from_color 7 0 (ColorStr ''blue'') 4 4" 0 None]
    by (simp add: g)
qed

text \<open>
  Claim C8 fails on the code, in the arithmetic of Python's floats. Take two boxes 1 wide and
  10 high, \<open>self\<close> at \<open>x = 0.2\<close> and \<open>other\<close> at \<open>x = 0.5\<close>, both at \<open>y = 0\<close>, padding 0.
  \<open>overlap\<close> gives the push \<open>-0.7\<close> on the x axis and the first call of
  \<open>move_to_stop_overlapping\<close> sets \<open>self.x\<close> to the float sum \<open>0.2 + -0.7\<close>, which is
  \<open>-0.49999999999999994\<close>. The boxes still overlap then, by \<open>2\<^sup>-\<^sup>5\<^sup>4\<close>: \<open>overlap\<close> is not \<open>(0, 0)\<close>,
  \<open>touches\<close> is true, and the second call moves \<open>self\<close> again, to \<open>x = -0.5\<close>. The documentation
  of \<open>overlap\<close> and of \<open>move_to_stop_overlapping\<close> says that after the move the boxes no longer
  overlap.
\<close>

theorem move_to_stop_overlapping_not_idempotent:
  "move_to_stop_overlapping round_binary64 demo_world
      (\<lambda>i. if i = 0 then from_color (round_binary64 (1 / 5)) 0 (ColorStr ''red'') 1 10
            else from_color (1 / 2) 0 (ColorStr ''blue'') 1 10) 0 1 0 None
     = (demo_world,
        (\<lambda>i. if i = 0 then from_color (round_binary64 (1 / 5)) 0 (ColorStr ''red'') 1 10
              else from_color (1 / 2) 0 (ColorStr ''blue'') 1 10)
        (0 := (from_color (round_binary64 (1 / 5)) 0 (ColorStr ''red'') 1 10)
                \<lparr>sb_x := - (9007199254740991 / 18014398509481984)\<rparr>)) \<and>
   overlap round_binary64
      ((from_color (round_binary64 (1 / 5)) 0 (ColorStr ''red'') 1 10)
         \<lparr>sb_x := - (9007199254740991 / 18014398509481984)\<rparr>)
      (from_color (1 / 2) 0 (ColorStr ''blue'') 1 10) 0 None
     = (- (1 / 18014398509481984), 0) \<and>
   touches round_binary64
      ((from_color (round_binary64 (1 / 5)) 0 (ColorStr ''red'') 1 10)
         \<lparr>sb_x := - (9007199254740991 / 18014398509481984)\<rparr>)
      (from_color (1 / 2) 0 (ColorStr ''blue'') 1 10) 0 None \<and>
   move_to_stop_overlapping round_binary64 demo_world
      ((\<lambda>i. if i = 0 then from_color (round_binary64 (1 / 5)) 0 (ColorStr ''red'') 1 10
             else from_color (1 / 2) 0 (ColorStr ''blue'') 1 10)
       (0 := (from_color (round_binary64 (1 / 5)) 0 (ColorStr ''red'') 1 10)
               \<lparr>sb_x := - (9007199254740991 / 18014398509481984)\<rparr>)) 0 1 0 None
     = (demo_world,
        (\<lambda>i. if i = 0 then from_color (round_binary64 (1 / 5)) 0 (ColorStr ''red'') 1 10
              else from_color (1 / 2) 0 (ColorStr ''blue'') 1 10)
        (0 := (from_color (round_binary64 (1 / 5)) 0 (ColorStr ''red'') 1 10)
                \<lparr>sb_x := - (1 / 2)\<rparr>)) \<and>
   - (9007199254740991 / 18014398509481984) \<noteq> - (1 / 2 :: real)"
proof -
  define A where "A = from_color (round_binary64 (1 / 5)) 0 (ColorStr ''red'') 1 10"
  define B where "B = from_color (1 / 2) 0 (ColorStr ''blue'') 1 10"
  define A1 where "A1 = A\<lparr>sb_x := - (9007199254740991 / 18014398509481984)\<rparr>"
  define boxes0 :: sprites where "boxes0 = (\<lambda>i. if i = 0 then A else B)"
  define boxes1 where "boxes1 = boxes0(0 := A1)"
  have b0: "boxes0 0 = A" "boxes0 (Suc 0) = B" by (simp_all add: boxes0_def)
  have b1: "boxes1 0 = A1" "boxes1 (Suc 0) = B" by (simp_all add: boxes1_def boxes0_def)
  have f_A: "sb_x A = 3602879701896397 / 18014398509481984" "sb_y A = 0" "sb_w A = 1" "sb_h A = 10"
    "sb_speedx A = 0" "sb_speedy A = 0"
    by (simp_all add: A_def from_color_def round_binary64_eval)
  have f_B: "sb_x B = 1 / 2" "sb_y B = 0" "sb_w B = 1" "sb_h B = 10"
    by (simp_all add: B_def from_color_def)
  have f_A1: "sb_x A1 = - (9007199254740991 / 18014398509481984)" "sb_y A1 = 0" "sb_w A1 = 1"
    "sb_h A1 = 10" "sb_speedx A1 = 0" "sb_speedy A1 = 0"
    by (simp_all add: A1_def f_A)
  have e_A: "sb_left round_binary64 A = - (5404319552844595 / 18014398509481984)" "sb_right round_binary64 A = 3152519739159347 / 4503599627370496"
    "sb_top round_binary64 A = - 5" "sb_bottom round_binary64 A = 5"
    by (simp_all add: sb_left_def sb_right_def sb_top_def sb_bottom_def f_A round_binary64_eval)
  have e_B: "sb_left round_binary64 B = 0" "sb_right round_binary64 B = 1"
    "sb_top round_binary64 B = - 5" "sb_bottom round_binary64 B = 5"
    by (simp_all add: sb_left_def sb_right_def sb_top_def sb_bottom_def f_B round_binary64_eval)
  have g_ab: "gap_l round_binary64 A B 0 = - (3152519739159347 / 4503599627370496)" "gap_r round_binary64 A B 0 = - (5854679515581645 / 4503599627370496)"
    "gap_t round_binary64 A B 0 = - 10" "gap_b round_binary64 A B 0 = - 10"
    by (simp_all add: gap_l_def gap_r_def gap_t_def gap_b_def e_A e_B round_binary64_eval)
  have m_ab: "gap_m round_binary64 A B 0 0 = - (3152519739159347 / 4503599627370496)"
    by (simp add: gap_m_eq g_ab)
  have o_ab: "overlap round_binary64 A B 0 None = (- (3152519739159347 / 4503599627370496), 0)"
    by (simp add: overlap_gaps pad_y_def Let_def g_ab m_ab)
  have t_ab: "touches round_binary64 A B 0 None = True"
    by (simp add: touches_gaps pad_y_def m_ab)
  have e_A1: "sb_left round_binary64 A1 = - 1" "sb_right round_binary64 A1 = 1 / 18014398509481984"
    "sb_top round_binary64 A1 = - 5" "sb_bottom round_binary64 A1 = 5"
    by (simp_all add: sb_left_def sb_right_def sb_top_def sb_bottom_def f_A1 round_binary64_eval)
  have g_a1b: "gap_l round_binary64 A1 B 0 = - (1 / 18014398509481984)" "gap_r round_binary64 A1 B 0 = - 2"
    "gap_t round_binary64 A1 B 0 = - 10" "gap_b round_binary64 A1 B 0 = - 10"
    by (simp_all add: gap_l_def gap_r_def gap_t_def gap_b_def e_A1 e_B round_binary64_eval)
  have m_a1b: "gap_m round_binary64 A1 B 0 0 = - (1 / 18014398509481984)"
    by (simp add: gap_m_eq g_a1b)
  have o_a1b: "overlap round_binary64 A1 B 0 None = (- (1 / 18014398509481984), 0)"
    by (simp add: overlap_gaps pad_y_def Let_def g_a1b m_a1b)
  have t_a1b: "touches round_binary64 A1 B 0 None = True"
    by (simp add: touches_gaps pad_y_def m_a1b)
  have y0: "A\<lparr>sb_y := 0\<rparr> = A" "A1\<lparr>sb_y := 0\<rparr> = A1" using f_A(2) f_A1(2) by simp_all
  have y1: "A\<lparr>sb_x := v, sb_y := 0\<rparr> = A\<lparr>sb_x := v\<rparr>" for v
    using f_A(2) by (cases A) simp
  have mv1: "move_to_stop_overlapping round_binary64 demo_world boxes0 0 1 0 None
      = (demo_world, boxes1)"
    by (simp add: move_to_stop_overlapping_def b0 o_ab move_def f_A round_binary64_eval
        A1_def y0 y1 boxes1_def)
  have mv2: "move_to_stop_overlapping round_binary64 demo_world boxes1 0 1 0 None
      = (demo_world, boxes0(0 := A\<lparr>sb_x := - (1 / 2)\<rparr>))"
    by (simp add: move_to_stop_overlapping_def b1 o_a1b move_def f_A1 round_binary64_eval y0)
      (simp add: A1_def y1 boxes1_def)
  show ?thesis
    using mv1 mv2 o_a1b t_a1b unfolding boxes1_def boxes0_def A1_def A_def B_def by simp
qed

text \<open>
  Claim C9. \<open>move(dx, dy)\<close> adds \<open>dx\<close> to \<open>x\<close> and \<open>dy\<close> to \<open>y\<close>, \<open>move_speed()\<close> adds the stored
  speed (float additions, whatever their rounding); width, height, speed, colour, cache key,
  resolved image and the shared image cache (the whole process state) stay as they were.
\<close>

theorem move_is_translation:
  "fst (move rnd W b dx dy) = W \<and>
   snd (move rnd W b dx dy) = b\<lparr>sb_x := rnd (sb_x b + dx), sb_y := rnd (sb_y b + dy)\<rparr> \<and>
   sb_x (snd (move rnd W b dx dy)) = rnd (sb_x b + dx) \<and>
   sb_y (snd (move rnd W b dx dy)) = rnd (sb_y b + dy) \<and>
   sb_w (snd (move rnd W b dx dy)) = sb_w b \<and> sb_h (snd (move rnd W b dx dy)) = sb_h b \<and>
   sb_speedx (snd (move rnd W b dx dy)) = sb_speedx b \<and>
   sb_speedy (snd (move rnd W b dx dy)) = sb_speedy b \<and>
   sb_color (snd (move rnd W b dx dy)) = sb_color b \<and> sb_key (snd (move rnd W b dx dy)) = sb_key b \<and>
   sb_image (snd (move rnd W b dx dy)) = sb_image b \<and>
   fst (move_speed rnd W b) = W \<and>
   snd (move_speed rnd W b) =
     b\<lparr>sb_x := rnd (sb_x b + sb_speedx b), sb_y := rnd (sb_y b + sb_speedy b)\<rparr> \<and>
   sb_x (snd (move_speed rnd W b)) = rnd (sb_x b + sb_speedx b) \<and>
   sb_y (snd (move_speed rnd W b)) = rnd (sb_y b + sb_speedy b) \<and>
   sb_w (snd (move_speed rnd W b)) = sb_w b \<and> sb_h (snd (move_speed rnd W b)) = sb_h b \<and>
   sb_speedx (snd (move_speed rnd W b)) = sb_speedx b \<and>
   sb_speedy (snd (move_speed rnd W b)) = sb_speedy b \<and>
   sb_color (snd (move_speed rnd W b)) = sb_color b \<and> sb_key (snd (move_speed rnd W b)) = sb_key b \<and>
   sb_image (snd (move_speed rnd W b)) = sb_image b"
  by (simp add: move_def move_speed_def)

section \<open>Lemmas on the image cache\<close>

declare get_transform.simps [simp del]

subsection \<open>One step of \<open>get_transform\<close>\<close>

lemma get_transform_unfold:
  "get_transform W k f w h a =
     (case (case known_images W (ImageKey k f w h a) of
              Some ans \<Rightarrow> Inr (ans, W)
            | None \<Rightarrow> resolve_miss W k f w h a) of
        Inl e \<Rightarrow> Inl e
      | Inr (ans, W3) \<Rightarrow> cache_at_size W3 k f w h a ans)"
  unfolding resolve_miss_def cache_at_size_def by (rule get_transform.simps)

lemma known_cache_put [simp]:
  "known_images (cache_put W k s) = (known_images W)(k \<mapsto> s)"
  by (simp add: cache_put_def)

lemma cache_put_same: "known_images W k = Some s \<Longrightarrow> cache_put W k s = W"
  by (simp add: cache_put_def map_upd_triv)

lemma get_transform_hit:
  assumes "known_images W (ImageKey k f w h a) = Some ans" "w \<noteq> 0 \<or> h \<noteq> 0"
  shows "get_transform W k f w h a = Inr (ans, W)"
  using assms by (subst get_transform.simps) auto

lemma get_transform_settled0:
  assumes "known_images W (ImageKey k f 0 0 0) = Some r"
    and "known_images W (ImageKey k f (int (get_width r)) (int (get_height r)) 0) = Some r"
  shows "get_transform W k f 0 0 0 = Inr (r, W)"
  using assms by (subst get_transform.simps) (simp add: cache_put_same)

subsection \<open>A settled key is answered from the cache\<close>

text \<open>
  When the cache is settled for a key, the call returns the cached image and the state it was given.
\<close>

lemma settled_noop:
  assumes "settled W k f w h a r"
  shows "get_transform W k f w h a = Inr (r, W)"
proof (cases "w = 0 \<and> h = 0")
  case False
  with assms show ?thesis by (auto simp: settled_def intro: get_transform_hit)
next
  case True
  with assms obtain tmp where k: "known_images W (ImageKey k f 0 0 a) = Some r"
    and t0: "known_images W (ImageKey k f 0 0 0) = Some tmp"
    and t1: "known_images W (ImageKey k f (int (get_width tmp)) (int (get_height tmp)) 0) = Some tmp"
    and t2: "known_images W (ImageKey k f (int (get_width tmp)) (int (get_height tmp)) a) = Some r"
    by (auto simp: settled_def)
  have base: "get_transform W k f 0 0 0 = Inr (tmp, W)"
    using t0 t1 by (rule get_transform_settled0)
  show ?thesis
  proof (cases "a = 0")
    case True
    with k t0 have "r = tmp" by simp
    with base True \<open>w = 0 \<and> h = 0\<close> show ?thesis by simp
  next
    case False
    show ?thesis
      using True False k base t2
      by (subst get_transform.simps) (simp add: cache_put_same)
  qed
qed

subsection \<open>Entries with a rotation are left alone by a call at angle 0\<close>

lemma known_cache_surface:
  "a \<noteq> 0 \<Longrightarrow> known_images (cache_surface W s) (ImageKey k f w h a) = known_images W (ImageKey k f w h a)"
  by (auto simp: cache_surface_def Let_def)

lemma get_filename_angle_frame:
  assumes "get_filename W n = Inr (r, W')" "a \<noteq> 0"
  shows "known_images W' (ImageKey k f w h a) = known_images W (ImageKey k f w h a)"
  using assms
  by (auto simp: get_filename_def image_load_def known_cache_surface Let_def
      split: option.splits filedata.splits)

lemma urlretrieve_known:
  "urlretrieve W u fn = Inr W1 \<Longrightarrow> known_images W1 = known_images W"
  by (auto simp: urlretrieve_def split: sum.splits if_splits)

lemma get_url_angle_frame:
  assumes "get_url W n = Inr (r, W')" "a \<noteq> 0"
  shows "known_images W' (ImageKey k f w h a) = known_images W (ImageKey k f w h a)"
proof -
  from assms(1) obtain fn where fn: "url_basename W n = Inr fn"
    by (cases "url_basename W n") (simp_all add: get_url_def)
  show ?thesis
  proof (cases "files W fn = None")
    case False
    with assms(1) fn have "get_filename W fn = Inr (r, W')" by (simp add: get_url_def)
    then show ?thesis using assms(2) by (rule get_filename_angle_frame)
  next
    case True
    let ?u = "if contains_str ''://'' n then n else ''http://'' @ n"
    from assms(1) True fn obtain W1 where u: "urlretrieve W ?u fn = Inr W1"
      and g: "get_filename W1 fn = Inr (r, W')"
      by (simp add: get_url_def split: sum.splits)
    from get_filename_angle_frame [OF g assms(2)] urlretrieve_known [OF u]
    show ?thesis by simp
  qed
qed

lemma load_angle_frame:
  assumes "load_filename_or_url W n = Inr (r, W')" "a \<noteq> 0"
  shows "known_images W' (ImageKey k f w h a) = known_images W (ImageKey k f w h a)"
proof (cases "known_images W (ImageKey n False 0 0 0)")
  case (Some img)
  with assms(1) show ?thesis by (simp add: load_filename_or_url_def)
next
  case None
  show ?thesis
  proof (cases "files W n = None")
    case True
    with None assms(1) have "get_url W n = Inr (r, W')"
      by (simp add: load_filename_or_url_def split: sum.splits pyexc.splits)
    then show ?thesis using assms(2) by (rule get_url_angle_frame)
  next
    case False
    with None assms(1) have "get_filename W n = Inr (r, W')"
      by (simp add: load_filename_or_url_def split: sum.splits pyexc.splits)
    then show ?thesis using assms(2) by (rule get_filename_angle_frame)
  qed
qed

lemma get_transform_angle_frame:
  "get_transform W k f w h a = Inr (r, W') \<Longrightarrow> a = 0 \<Longrightarrow> a' \<noteq> 0
   \<Longrightarrow> known_images W' (ImageKey k' f' w' h' a') = known_images W (ImageKey k' f' w' h' a')"
proof (induction W k f w h a arbitrary: r W' rule: get_transform.induct)
  case (1 W key flip w h angle)
  from "1.prems"(2) have a0: "angle = 0" .
  show ?case
    using "1.prems"(1) "1.prems"(3) "1.IH"(2,3) a0
    apply (subst (asm) get_transform.simps)
    apply (auto simp: smoothscale_def transform_flip_def
        split: option.splits sum.splits if_splits prod.splits dest: load_angle_frame)
    done
qed

subsection \<open>What a call leaves in the cache\<close>

lemma resolve_miss_cached:
  "resolve_miss W k f w h a = Inr (ans, W3) \<Longrightarrow> known_images W3 (ImageKey k f w h a) = Some ans"
  by (auto simp: resolve_miss_def Let_def split: if_splits sum.splits prod.splits)

lemma first_half_cached:
  assumes "(case known_images W (ImageKey k f w h a) of Some ans \<Rightarrow> Inr (ans, W)
            | None \<Rightarrow> resolve_miss W k f w h a) = Inr (ans, W3)"
  shows "known_images W3 (ImageKey k f w h a) = Some ans"
  using assms by (auto split: option.splits dest: resolve_miss_cached)

lemma get_transform_halves:
  assumes "get_transform W k f w h a = Inr (r, W')"
  obtains ans W3 where "known_images W3 (ImageKey k f w h a) = Some ans"
    and "cache_at_size W3 k f w h a ans = Inr (r, W')"
    and "known_images W (ImageKey k f w h a) = Some ans \<and> W3 = W \<or>
         known_images W (ImageKey k f w h a) = None \<and> resolve_miss W k f w h a = Inr (ans, W3)"
proof -
  let ?first = "case known_images W (ImageKey k f w h a) of Some ans \<Rightarrow> Inr (ans, W)
            | None \<Rightarrow> resolve_miss W k f w h a"
  from assms obtain ans W3 where f: "?first = Inr (ans, W3)"
    and c: "cache_at_size W3 k f w h a ans = Inr (r, W')"
    by (subst (asm) get_transform_unfold) (auto split: sum.splits)
  from f have "known_images W3 (ImageKey k f w h a) = Some ans" by (rule first_half_cached)
  moreover from f have "known_images W (ImageKey k f w h a) = Some ans \<and> W3 = W \<or>
         known_images W (ImageKey k f w h a) = None \<and> resolve_miss W k f w h a = Inr (ans, W3)"
    by (auto split: option.splits)
  ultimately show ?thesis using c that by blast
qed

lemma get_transform_settles0:
  assumes "get_transform W k f w h 0 = Inr (r, W')"
  shows "settled W' k f w h 0 r"
proof -
  from assms obtain ans W3 where k: "known_images W3 (ImageKey k f w h 0) = Some ans"
    and c: "cache_at_size W3 k f w h 0 ans = Inr (r, W')"
    by (rule get_transform_halves)
  show ?thesis
    using k c by (auto simp: cache_at_size_def settled_def split: if_splits)
qed

lemma get_transform_settles:
  assumes "get_transform W k f w h a = Inr (r, W')"
  shows "settled W' k f w h a r"
proof (cases "a = 0")
  case True
  with assms show ?thesis by (simp add: get_transform_settles0)
next
  case False
  from assms obtain ans W3 where k: "known_images W3 (ImageKey k f w h a) = Some ans"
    and c: "cache_at_size W3 k f w h a ans = Inr (r, W')"
    by (rule get_transform_halves)
  show ?thesis
  proof (cases "w = 0 \<and> h = 0")
    case nz: False
    with k c show ?thesis by (auto simp: cache_at_size_def settled_def)
  next
    case z: True
    from c z False obtain tmp W4 where t: "get_transform W3 k f 0 0 0 = Inr (tmp, W4)"
      and r: "r = ans"
      and W': "W' = cache_put W4 (ImageKey k f (int (get_width tmp)) (int (get_height tmp)) a) ans"
      by (auto simp: cache_at_size_def split: sum.splits)
    from t have s0: "settled W4 k f 0 0 0 tmp" by (rule get_transform_settles0)
    have "known_images W4 (ImageKey k f 0 0 a) = Some ans"
      using get_transform_angle_frame [OF t refl False, of k f 0 0] k z by simp
    then show ?thesis
      using s0 False z by (auto simp: settled_def W' r)
  qed
qed

subsection \<open>Induction over the depth of the recursion\<close>

text \<open>
  The recursion of \<open>get_transform\<close> goes from a rotated key to the unrotated one, from a sized key to
  the default size, and from a flipped key to the plain one; the final block calls the unrotated
  default-size key in the state the first part has left. The rule below gives the hypothesis
  for each of these calls.
\<close>

lemma get_transform_levels:
  assumes step: "\<And>W k f w h a.
      (a \<noteq> 0 \<Longrightarrow> P W k f w h 0) \<Longrightarrow>
      (a = 0 \<Longrightarrow> w \<noteq> 0 \<or> h \<noteq> 0 \<Longrightarrow> P W k f 0 0 0) \<Longrightarrow>
      (a = 0 \<Longrightarrow> w = 0 \<Longrightarrow> h = 0 \<Longrightarrow> f \<Longrightarrow> P W k False 0 0 0) \<Longrightarrow>
      (\<And>W3. a \<noteq> 0 \<Longrightarrow> w = 0 \<Longrightarrow> h = 0 \<Longrightarrow> P W3 k f 0 0 0) \<Longrightarrow> P W k f w h a"
  shows "P W k f w h a"
proof -
  have l0: "P V k False 0 0 0" for V by (rule step) simp_all
  have l1: "P V k True 0 0 0" for V by (rule step) (simp_all add: l0)
  have l2: "P V k g 0 0 0" for V g using l0 l1 by (cases g) simp_all
  have l3: "P V k g u v 0" for V g u v
  proof (cases "u = 0 \<and> v = 0")
    case True then show ?thesis using l2 by simp
  next
    case False
    show ?thesis by (rule step) (use False in \<open>simp_all add: l2\<close>)
  qed
  show ?thesis
  proof (cases "a = 0")
    case True then show ?thesis using l3 by simp
  next
    case False
    show ?thesis by (rule step) (use False in \<open>simp_all add: l2 l3\<close>)
  qed
qed

subsection \<open>The loader, step by step\<close>

lemma known_put_other: "K' \<noteq> K \<Longrightarrow> known_images (cache_put W K s) K' = known_images W K'"
  by simp

lemma known_put_this: "known_images (cache_put W K s) K = Some s"
  by simp

lemma cache_surface_new:
  "known_images W (ImageKey (id_key s) False 0 0 0) = None \<Longrightarrow>
   cache_surface W s = cache_put (cache_put W (ImageKey (id_key s) False 0 0 0) s)
        (ImageKey (id_key s) False (int (get_width s)) (int (get_height s)) 0) s"
  unfolding cache_surface_def Let_def by (simp only: if_True refl)

lemma cache_surface_old:
  "known_images W (ImageKey (id_key s) False 0 0 0) \<noteq> None \<Longrightarrow> cache_surface W s = W"
  unfolding cache_surface_def Let_def by (simp only: if_False)

lemma known_image_load:
  "image_load W n = Inr (r, W1) \<Longrightarrow> known_images W1 = known_images W"
  by (auto simp: image_load_def split: option.splits filedata.splits)

lemma get_filename_result:
  assumes "get_filename W n = Inr (r, W')"
  obtains W1 where "image_load W n = Inr (r, W1)"
    and "W' = cache_surface (cache_put (cache_put W1 (ImageKey n False 0 0 0) r)
        (ImageKey n False (int (get_width r)) (int (get_height r)) 0) r) r"
  using assms by (auto simp: get_filename_def Let_def split: sum.splits)

lemma get_url_result:
  assumes "get_url W n = Inr (r, W')"
  obtains W1 fn where "known_images W1 = known_images W"
    and "get_filename W1 fn = Inr (r, W')"
proof -
  from assms obtain fn where fn: "url_basename W n = Inr fn"
    by (cases "url_basename W n") (simp_all add: get_url_def)
  show ?thesis
  proof (cases "files W fn = None")
    case False
    with assms fn have "get_filename W fn = Inr (r, W')"
      by (simp add: get_url_def)
    then show ?thesis using that by blast
  next
    case True
    let ?u = "if contains_str ''://'' n then n else ''http://'' @ n"
    from assms True fn obtain W1 where u: "urlretrieve W ?u fn = Inr W1"
      and g: "get_filename W1 fn = Inr (r, W')"
      by (simp add: get_url_def split: sum.splits)
    from u have "known_images W1 = known_images W"
      by (auto simp: urlretrieve_def split: sum.splits if_splits)
    then show ?thesis using g that by blast
  qed
qed

lemma load_result:
  assumes "load_filename_or_url W n = Inr (r, W')"
  shows "known_images W (ImageKey n False 0 0 0) = Some r \<and> W' = W \<or>
     known_images W (ImageKey n False 0 0 0) = None \<and> files W n \<noteq> None \<and> get_filename W n = Inr (r, W') \<or>
     known_images W (ImageKey n False 0 0 0) = None \<and> files W n = None \<and> get_url W n = Inr (r, W')"
proof (cases "known_images W (ImageKey n False 0 0 0)")
  case (Some img)
  with assms show ?thesis by (simp add: load_filename_or_url_def)
next
  case None
  show ?thesis
  proof (cases "files W n = None")
    case True
    with None assms have "get_url W n = Inr (r, W')"
      by (simp add: load_filename_or_url_def split: sum.splits pyexc.splits)
    with None True show ?thesis by simp
  next
    case False
    with None assms have "get_filename W n = Inr (r, W')"
      by (simp add: load_filename_or_url_def split: sum.splits pyexc.splits)
    with None False show ?thesis by simp
  qed
qed

lemma known_rotozoom [simp]: "known_images (snd (rotozoom W b a)) = known_images W"
  by (simp add: rotozoom_def split: prod.splits)

lemma known_transform_flip [simp]: "known_images (snd (transform_flip W b)) = known_images W"
  by (simp add: transform_flip_def)

lemma smoothscale_result:
  assumes "smoothscale W b w h = Inr (r, W')"
  shows "known_images W' = known_images W" "int (get_width r) = w" "int (get_height r) = h"
    "0 \<le> w" "0 \<le> h" "r = Surface (next_id W) (nat w) (nat h) (Smoothscale (pixels b) w h)"
  using assms by (auto simp: smoothscale_def split: if_splits)

text \<open>The four branches of \<open>resolve_miss\<close>, each with the state it returns.\<close>

lemma resolve_miss_cases:
  assumes "resolve_miss W k f w h a = Inr (ans, W3)"
  obtains (rot) base W1 where "a \<noteq> 0" "get_transform W k f w h 0 = Inr (base, W1)"
      "ans = fst (rotozoom W1 base a)"
      "W3 = cache_put (snd (rotozoom W1 base a)) (ImageKey k f w h a) ans"
    | (scale) base W1 W2 where "a = 0" "w \<noteq> 0 \<or> h \<noteq> 0"
      "get_transform W k f 0 0 0 = Inr (base, W1)" "smoothscale W1 base w h = Inr (ans, W2)"
      "W3 = cache_put W2 (ImageKey k f w h a) ans"
    | (flp) base W1 where "a = 0" "w = 0" "h = 0" "f"
      "get_transform W k False 0 0 0 = Inr (base, W1)" "ans = fst (transform_flip W1 base)"
      "W3 = cache_put (snd (transform_flip W1 base)) (ImageKey k f w h a) ans"
    | (load) W1 where "a = 0" "w = 0" "h = 0" "\<not> f" "load_filename_or_url W k = Inr (ans, W1)"
      "W3 = cache_put W1 (ImageKey k f w h a) ans"
proof -
  consider "a \<noteq> 0" | "a = 0" "w \<noteq> 0 \<or> h \<noteq> 0" | "a = 0" "w = 0" "h = 0" "f"
    | "a = 0" "w = 0" "h = 0" "\<not> f" by blast
  then show ?thesis
  proof cases
    case 1
    with assms rot show ?thesis
      by (auto simp: resolve_miss_def split: sum.splits prod.splits)
  next
    case 2
    with assms scale show ?thesis
      by (auto simp: resolve_miss_def split: sum.splits prod.splits)
  next
    case 3
    with assms flp show ?thesis
      by (auto simp: resolve_miss_def split: sum.splits prod.splits)
  next
    case 4
    with assms load show ?thesis
      by (auto simp: resolve_miss_def split: sum.splits prod.splits)
  qed
qed

subsection \<open>Invariants of the cache map\<close>

text \<open>
  Any property of the cache map that survives every store \<^verbatim>\<open>get_transform\<close> and the loader
  make (a store at angle 0 under an explicit size holds an image of that size) survives a
  call of \<^verbatim>\<open>get_transform\<close>.
\<close>

lemma inv_cache_put:
  assumes put: "kept_by_stores I"
    and "I (known_images W)"
    and "a = 0 \<Longrightarrow> w \<noteq> 0 \<or> h \<noteq> 0 \<Longrightarrow> int (get_width s) = w \<and> int (get_height s) = h"
  shows "I (known_images (cache_put W (ImageKey k f w h a) s))"
  unfolding known_cache_put using assms unfolding kept_by_stores_def by blast

lemma inv_cache_surface:
  assumes put: "kept_by_stores I"
    and "I (known_images W)"
  shows "I (known_images (cache_surface W s))"
proof (cases "known_images W (ImageKey (id_key s) False 0 0 0) = None")
  case True
  have 1: "I (known_images (cache_put W (ImageKey (id_key s) False 0 0 0) s))"
    by (rule inv_cache_put [OF put assms(2)]) simp_all
  have "I (known_images (cache_put (cache_put W (ImageKey (id_key s) False 0 0 0) s)
        (ImageKey (id_key s) False (int (get_width s)) (int (get_height s)) 0) s))"
    by (rule inv_cache_put [OF put 1]) simp_all
  with True show ?thesis by (simp only: cache_surface_new)
next
  case False
  then show ?thesis using assms(2) by (simp add: cache_surface_old)
qed

lemma inv_get_filename:
  assumes put: "kept_by_stores I"
    and "I (known_images W)" "get_filename W n = Inr (r, W')"
  shows "I (known_images W')"
proof -
  from assms(3) obtain W1 where l: "image_load W n = Inr (r, W1)"
    and W': "W' = cache_surface (cache_put (cache_put W1 (ImageKey n False 0 0 0) r)
        (ImageKey n False (int (get_width r)) (int (get_height r)) 0) r) r"
    by (rule get_filename_result)
  from assms(2) have 1: "I (known_images W1)" by (simp only: known_image_load [OF l])
  have 2: "I (known_images (cache_put W1 (ImageKey n False 0 0 0) r))"
    by (rule inv_cache_put [OF put 1]) simp_all
  have 3: "I (known_images (cache_put (cache_put W1 (ImageKey n False 0 0 0) r)
        (ImageKey n False (int (get_width r)) (int (get_height r)) 0) r))"
    by (rule inv_cache_put [OF put 2]) simp_all
  show ?thesis unfolding W' by (rule inv_cache_surface [OF put 3])
qed

lemma inv_load:
  assumes put: "kept_by_stores I"
    and "I (known_images W)" "load_filename_or_url W n = Inr (r, W')"
  shows "I (known_images W')"
  using load_result [OF assms(3)]
proof (elim disjE conjE)
  assume "W' = W" with assms(2) show ?thesis by simp
next
  assume "get_filename W n = Inr (r, W')"
  then show ?thesis by (rule inv_get_filename [OF put assms(2)])
next
  assume "get_url W n = Inr (r, W')"
  then obtain W1 fn where k: "known_images W1 = known_images W"
    and g: "get_filename W1 fn = Inr (r, W')" by (rule get_url_result)
  from assms(2) have 1: "I (known_images W1)" by (simp only: k)
  show ?thesis by (rule inv_get_filename [OF put 1 g])
qed

lemma inv_resolve_miss:
  assumes put: "kept_by_stores I"
    and ok: "I (known_images W)" and rm: "resolve_miss W k f w h a = Inr (ans, W3)"
    and ih1: "\<And>r V. a \<noteq> 0 \<Longrightarrow> get_transform W k f w h 0 = Inr (r, V) \<Longrightarrow> I (known_images V)"
    and ih2: "\<And>r V. a = 0 \<Longrightarrow> w \<noteq> 0 \<or> h \<noteq> 0 \<Longrightarrow> get_transform W k f 0 0 0 = Inr (r, V)
        \<Longrightarrow> I (known_images V)"
    and ih3: "\<And>r V. a = 0 \<Longrightarrow> w = 0 \<Longrightarrow> h = 0 \<Longrightarrow> f \<Longrightarrow> get_transform W k False 0 0 0 = Inr (r, V)
        \<Longrightarrow> I (known_images V)"
  shows "I (known_images W3)"
  using rm
proof (cases rule: resolve_miss_cases)
  case (rot base W1)
  from ih1 [OF rot(1,2)] have 1: "I (known_images (snd (rotozoom W1 base a)))" by simp
  show ?thesis unfolding rot(4) by (rule inv_cache_put [OF put 1]) (use rot(1) in simp_all)
next
  case (scale base W1 W2)
  note sc = smoothscale_result [OF scale(4)]
  from ih2 [OF scale(1,2,3)] have 1: "I (known_images W2)" by (simp only: sc(1))
  show ?thesis unfolding scale(5) by (rule inv_cache_put [OF put 1]) (use sc in simp_all)
next
  case (flp base W1)
  from ih3 [OF flp(1,2,3,4,5)] have 1: "I (known_images (snd (transform_flip W1 base)))" by simp
  show ?thesis unfolding flp(7) by (rule inv_cache_put [OF put 1]) (use flp in simp_all)
next
  case (load W1)
  from inv_load [OF put ok load(5)] have 1: "I (known_images W1)" by simp
  show ?thesis unfolding load(6) by (rule inv_cache_put [OF put 1]) (use load in simp_all)
qed

lemma inv_get_transform:
  assumes put: "kept_by_stores I"
  shows "I (known_images W) \<Longrightarrow> get_transform W k f w h a = Inr (r, W') \<Longrightarrow> I (known_images W')"
proof -
  have "\<forall>r W'. I (known_images W) \<longrightarrow> get_transform W k f w h a = Inr (r, W') \<longrightarrow> I (known_images W')"
  proof (rule get_transform_levels [where P = "\<lambda>W k f w h a.
        \<forall>r W'. I (known_images W) \<longrightarrow> get_transform W k f w h a = Inr (r, W') \<longrightarrow> I (known_images W')"],
      intro allI impI)
    fix W k f w h a r W'
    assume ih1: "a \<noteq> 0 \<Longrightarrow> \<forall>r W'. I (known_images W) \<longrightarrow> get_transform W k f w h 0 = Inr (r, W')
          \<longrightarrow> I (known_images W')"
      and ih2: "a = 0 \<Longrightarrow> w \<noteq> 0 \<or> h \<noteq> 0 \<Longrightarrow>
          \<forall>r W'. I (known_images W) \<longrightarrow> get_transform W k f 0 0 0 = Inr (r, W') \<longrightarrow> I (known_images W')"
      and ih3: "a = 0 \<Longrightarrow> w = 0 \<Longrightarrow> h = 0 \<Longrightarrow> f \<Longrightarrow>
          \<forall>r W'. I (known_images W) \<longrightarrow> get_transform W k False 0 0 0 = Inr (r, W')
          \<longrightarrow> I (known_images W')"
      and ih4: "\<And>W3. a \<noteq> 0 \<Longrightarrow> w = 0 \<Longrightarrow> h = 0 \<Longrightarrow>
          \<forall>r W'. I (known_images W3) \<longrightarrow> get_transform W3 k f 0 0 0 = Inr (r, W')
          \<longrightarrow> I (known_images W')"
      and ok: "I (known_images W)" and gt: "get_transform W k f w h a = Inr (r, W')"
    from gt obtain ans W3 where c: "cache_at_size W3 k f w h a ans = Inr (r, W')"
      and first: "known_images W (ImageKey k f w h a) = Some ans \<and> W3 = W \<or>
         known_images W (ImageKey k f w h a) = None \<and> resolve_miss W k f w h a = Inr (ans, W3)"
      by (rule get_transform_halves)
    have ok3: "I (known_images W3)"
      using first
    proof
      assume "known_images W (ImageKey k f w h a) = Some ans \<and> W3 = W"
      with ok show ?thesis by simp
    next
      assume "known_images W (ImageKey k f w h a) = None \<and> resolve_miss W k f w h a = Inr (ans, W3)"
      then have rm: "resolve_miss W k f w h a = Inr (ans, W3)" by simp
      show ?thesis
      proof (rule inv_resolve_miss [OF put ok rm])
        show "I (known_images V)" if "a \<noteq> 0" "get_transform W k f w h 0 = Inr (r, V)" for r V
          using ih1 that ok by blast
        show "I (known_images V)" if "a = 0" "w \<noteq> 0 \<or> h \<noteq> 0" "get_transform W k f 0 0 0 = Inr (r, V)"
          for r V using ih2 that ok by blast
        show "I (known_images V)" if "a = 0" "w = 0" "h = 0" "f" "get_transform W k False 0 0 0 = Inr (r, V)"
          for r V using ih3 that ok by blast
      qed
    qed
    show "I (known_images W')"
    proof (cases "w = 0 \<and> h = 0")
      case False
      with c ok3 show ?thesis by (auto simp: cache_at_size_def)
    next
      case z: True
      show ?thesis
      proof (cases "a = 0")
        case True
        with c z have W': "W' = cache_put W3 (ImageKey k f (int (get_width ans)) (int (get_height ans)) 0) ans"
          by (auto simp: cache_at_size_def)
        show ?thesis unfolding W' by (rule inv_cache_put [OF put ok3]) simp_all
      next
        case False
        with c z obtain tmp W4 where t: "get_transform W3 k f 0 0 0 = Inr (tmp, W4)"
          and W': "W' = cache_put W4 (ImageKey k f (int (get_width tmp)) (int (get_height tmp)) a) ans"
          by (auto simp: cache_at_size_def split: sum.splits)
        from ih4 [of W3] False z ok3 t have 4: "I (known_images W4)" by blast
        show ?thesis unfolding W' by (rule inv_cache_put [OF put 4]) (use False in simp_all)
      qed
    qed
  qed
  then show "I (known_images W) \<Longrightarrow> get_transform W k f w h a = Inr (r, W') \<Longrightarrow> I (known_images W')"
    by blast
qed

lemma get_transform_keeps:
  assumes "get_transform W k f w h a = Inr (r, W')" "known_images W K \<noteq> None"
  shows "known_images W' K \<noteq> None"
proof -
  have "kept_by_stores (\<lambda>m. m K \<noteq> None)" by (simp add: kept_by_stores_def)
  from inv_get_transform [OF this assms(2) assms(1)] show ?thesis .
qed

lemma cache_ok_kept:
  "kept_by_stores (\<lambda>m. \<forall>k f w h r. (w \<noteq> 0 \<or> h \<noteq> 0) \<longrightarrow> m (ImageKey k f w h 0) = Some r \<longrightarrow>
        int (get_width r) = w \<and> int (get_height r) = h)"
  unfolding kept_by_stores_def
proof (intro allI impI)
  fix m :: "image_key \<rightharpoonup> surface" and k f w h a s k' f' w' h' r
  assume ok: "\<forall>k f w h r. (w \<noteq> 0 \<or> h \<noteq> 0) \<longrightarrow> m (ImageKey k f w h 0) = Some r \<longrightarrow>
        int (get_width r) = w \<and> int (get_height r) = h"
    and new: "a = 0 \<longrightarrow> w \<noteq> 0 \<or> h \<noteq> 0 \<longrightarrow> int (get_width s) = w \<and> int (get_height s) = h"
    and nz: "w' \<noteq> 0 \<or> h' \<noteq> 0"
    and kn: "(m(ImageKey k f w h a \<mapsto> s)) (ImageKey k' f' w' h' 0) = Some r"
  show "int (get_width r) = w' \<and> int (get_height r) = h'"
  proof (cases "ImageKey k' f' w' h' 0 = ImageKey k f w h a")
    case True
    with kn have "r = s" by (simp only: fun_upd_same option.inject)
    with True nz new show ?thesis by simp
  next
    case False
    from kn have "m (ImageKey k' f' w' h' 0) = Some r"
      by (simp only: fun_upd_other [OF False])
    with ok nz show ?thesis by blast
  qed
qed

lemma cache_ok_get_transform:
  assumes "cache_ok W" "get_transform W k f w h a = Inr (r, W')"
  shows "cache_ok W'"
  using inv_get_transform [OF cache_ok_kept _ assms(2)] assms(1)
  unfolding cache_ok_def by blast

lemma cache_ok_cache_surface: "cache_ok W \<Longrightarrow> cache_ok (cache_surface W s)"
  using inv_cache_surface [OF cache_ok_kept, of W s] unfolding cache_ok_def by blast

lemma cache_ok_load:
  assumes "cache_ok W" "load_filename_or_url W n = Inr (r, W')"
  shows "cache_ok W'"
  using inv_load [OF cache_ok_kept _ assms(2)] assms(1) unfolding cache_ok_def by blast

lemma cache_surface_keeps: "known_images W K \<noteq> None \<Longrightarrow> known_images (cache_surface W s) K \<noteq> None"
proof -
  have "kept_by_stores (\<lambda>m. m K \<noteq> None)" by (simp add: kept_by_stores_def)
  from inv_cache_surface [OF this] show "known_images W K \<noteq> None \<Longrightarrow> ?thesis" .
qed

lemma load_keeps:
  assumes "load_filename_or_url W n = Inr (r, W')" "known_images W K \<noteq> None"
  shows "known_images W' K \<noteq> None"
proof -
  have "kept_by_stores (\<lambda>m. m K \<noteq> None)" by (simp add: kept_by_stores_def)
  from inv_load [OF this assms(2) assms(1)] show ?thesis .
qed

lemma settled0_frame:
  assumes "settled W k f w h 0 r"
    and "\<And>k' f' w' h'. known_images V (ImageKey k' f' w' h' 0) = known_images W (ImageKey k' f' w' h' 0)"
  shows "settled V k f w h 0 r"
  using assms(1) unfolding settled_def assms(2) .

lemma get_transform_rotate_miss:
  assumes miss: "known_images W (ImageKey k f w h a) = None" and a: "a \<noteq> 0"
    and base: "get_transform W k f w h 0 = Inr (base, W1)"
  shows "get_transform W k f w h a =
     Inr (fst (rotozoom W1 base a),
          (if w = 0 \<and> h = 0 then
             cache_put (cache_put (snd (rotozoom W1 base a)) (ImageKey k f w h a) (fst (rotozoom W1 base a)))
               (ImageKey k f (int (get_width base)) (int (get_height base)) a) (fst (rotozoom W1 base a))
           else cache_put (snd (rotozoom W1 base a)) (ImageKey k f w h a) (fst (rotozoom W1 base a))))"
proof -
  let ?img = "fst (rotozoom W1 base a)"
  let ?W3 = "cache_put (snd (rotozoom W1 base a)) (ImageKey k f w h a) ?img"
  have rm: "resolve_miss W k f w h a = Inr (?img, ?W3)"
    using a base by (simp add: resolve_miss_def split: prod.splits)
  have s1: "settled W1 k f w h 0 base" using base by (rule get_transform_settles0)
  have "settled ?W3 k f w h 0 base"
    using s1 by (rule settled0_frame) (use a in simp)
  then have again: "get_transform ?W3 k f w h 0 = Inr (base, ?W3)" by (rule settled_noop)
  show ?thesis
  proof (cases "w = 0 \<and> h = 0")
    case True
    with again have "get_transform (cache_put (snd (rotozoom W1 base a)) (ImageKey k f 0 0 a) ?img) k f 0 0 0
        = Inr (base, cache_put (snd (rotozoom W1 base a)) (ImageKey k f 0 0 a) ?img)" by simp
    with True miss rm a show ?thesis
      by (subst get_transform_unfold) (simp add: cache_at_size_def)
  next
    case False
    with miss rm show ?thesis
      by (subst get_transform_unfold) (auto simp add: cache_at_size_def)
  qed
qed

lemma get_transform_cached:
  assumes "get_transform W k f w h a = Inr (img, W')"
  shows "known_images W' (ImageKey k f w h a) = Some img"
  using get_transform_settles [OF assms] by (simp add: settled_def)

lemma get_transform_miss_error:
  assumes "known_images W (ImageKey k f w h a) = None" "resolve_miss W k f w h a = Inl e"
  shows "get_transform W k f w h a = Inl e"
  using assms by (subst get_transform_unfold) simp

lemma get_transform_miss0:
  assumes "known_images W (ImageKey k f w h 0) = None" "resolve_miss W k f w h 0 = Inr (img, W3)"
  shows "get_transform W k f w h 0 =
     Inr (img, if w = 0 \<and> h = 0
               then cache_put W3 (ImageKey k f (int (get_width img)) (int (get_height img)) 0) img
               else W3)"
  using assms by (subst get_transform_unfold) (simp add: cache_at_size_def)

subsection \<open>The error message holds the reference\<close>

lemma contains_str_prefix: "contains_str s (s @ q)"
proof (cases "s @ q")
  case Nil
  then show ?thesis by simp
next
  case (Cons c cs)
  have "take (length s) (s @ q) = s" by simp
  then have "take (length s) (c # cs) = s" by (simp only: Cons)
  then have "contains_str s (c # cs)" by simp
  then show ?thesis by (simp only: Cons)
qed

lemma contains_str_mid: "contains_str s (p @ s @ q)"
proof (induction p)
  case Nil
  show ?case using contains_str_prefix by simp
next
  case (Cons c p)
  then show ?case by simp
qed

lemma message_has_reference: "contains_str n (fetch_error_message n)"
  unfolding fetch_error_message_def by (rule contains_str_mid)

lemma get_filename_error:
  assumes "get_filename W n = Inl e"
  shows "e = OSError \<and> files W n = None \<or> e = PygameError \<and> files W n = Some Garbage"
  using assms
  by (auto simp: get_filename_def image_load_def Let_def
      split: sum.splits option.splits filedata.splits prod.splits)

text \<open>
  Where the errors of \<^verbatim>\<open>_get_url\<close> come from: \<^verbatim>\<open>urlparse\<close>, the download, or the load of the
  local file.
\<close>

lemma get_url_error:
  assumes "get_url W n = Inl e"
  shows "url_basename W n = Inl e \<or>
     (\<exists>fn. url_basename W n = Inr fn \<and> files W fn = None \<and>
        web W (if contains_str ''://'' n then n else ''http://'' @ n) = Inl e) \<or>
     e = OSError \<or> e = PygameError"
proof (cases "url_basename W n")
  case (Inl e')
  with assms show ?thesis by (simp add: get_url_def)
next
  case fn: (Inr fn)
  show ?thesis
  proof (cases "files W fn = None")
    case False
    with assms fn have "get_filename W fn = Inl e" by (simp add: get_url_def)
    from get_filename_error [OF this] show ?thesis by blast
  next
    case True
    let ?u = "if contains_str ''://'' n then n else ''http://'' @ n"
    show ?thesis
    proof (cases "urlretrieve W ?u fn")
      case (Inl e')
      with assms True fn have "e = e'" by (simp add: get_url_def)
      moreover from Inl have "web W ?u = Inl e' \<or> e' = OSError"
        by (auto simp: urlretrieve_def split: sum.splits if_splits)
      ultimately show ?thesis using fn True by blast
    next
      case (Inr W1)
      with assms True fn have "get_filename W1 fn = Inl e"
        by (simp add: get_url_def)
      from get_filename_error [OF this] show ?thesis by blast
    qed
  qed
qed

text \<open>
  Once the unrotated image of a key is settled, \<open>get_transform\<close> for the key at any angle
  leaves every entry of angle 0 as it is.
\<close>

lemma get_transform_frame0:
  assumes s: "settled W k f w h 0 base" and gt: "get_transform W k f w h a = Inr (r, W')"
  shows "known_images W' (ImageKey k' f' w' h' 0) = known_images W (ImageKey k' f' w' h' 0)"
proof (cases "a = 0")
  case True
  with settled_noop [OF s] gt show ?thesis by simp
next
  case a: False
  have base: "get_transform W k f w h 0 = Inr (base, W)" using s by (rule settled_noop)
  show ?thesis
  proof (cases "known_images W (ImageKey k f w h a)")
    case None
    from get_transform_rotate_miss [OF None a base] gt a show ?thesis
      by (auto split: if_splits)
  next
    case (Some ans)
    show ?thesis
    proof (cases "w = 0 \<and> h = 0")
      case False
      with get_transform_hit [OF Some] gt show ?thesis by auto
    next
      case True
      with base have "get_transform W k f 0 0 0 = Inr (base, W)" by simp
      with gt Some True a show ?thesis
        by (subst (asm) get_transform_unfold) (auto simp: cache_at_size_def)
    qed
  qed
qed

lemma settled_unrot:
  assumes "settled W k f w h 0 unrot" "cache_ok W"
  shows "\<exists>w2 h2. w2 = (if w = 0 \<and> h = 0 then int (get_width unrot) else w) \<and>
     h2 = (if w = 0 \<and> h = 0 then int (get_height unrot) else h) \<and>
     settled W k f w2 h2 0 unrot \<and> w2 = int (get_width unrot) \<and> h2 = int (get_height unrot)"
proof (cases "w = 0 \<and> h = 0")
  case True
  with assms(1) have k0: "known_images W (ImageKey k f 0 0 0) = Some unrot"
    and k1: "known_images W (ImageKey k f (int (get_width unrot)) (int (get_height unrot)) 0) = Some unrot"
    by (auto simp: settled_def)
  have "settled W k f (int (get_width unrot)) (int (get_height unrot)) 0 unrot"
    unfolding settled_def using k0 k1 by auto
  with True show ?thesis by simp
next
  case False
  from assms(1) have "known_images W (ImageKey k f w h 0) = Some unrot" by (simp add: settled_def)
  with assms(2) False have "int (get_width unrot) = w \<and> int (get_height unrot) = h"
    unfolding cache_ok_def by blast
  with False assms(1) show ?thesis by auto
qed

lemma settled_unrot_any:
  assumes "settled W k f w h 0 unrot"
  shows "settled W k f (if w = 0 \<and> h = 0 then int (get_width unrot) else w)
     (if w = 0 \<and> h = 0 then int (get_height unrot) else h) 0 unrot"
proof (cases "w = 0 \<and> h = 0")
  case True
  with assms have k0: "known_images W (ImageKey k f 0 0 0) = Some unrot"
    and k1: "known_images W (ImageKey k f (int (get_width unrot)) (int (get_height unrot)) 0) = Some unrot"
    by (auto simp: settled_def)
  have "settled W k f (int (get_width unrot)) (int (get_height unrot)) 0 unrot"
    unfolding settled_def using k0 k1 by auto
  with True show ?thesis by simp
next
  case False
  with assms show ?thesis by auto
qed

lemma set_key_alt:
  "set_key rnd W self name flp width height angle =
     (case get_transform (ref_world W name) (ref_key name) flp (round_px rnd width) (round_px rnd height) 0 of
        Inl e \<Rightarrow> Inl e
      | Inr (unrot, W1) \<Rightarrow>
          (case get_transform W1 (ref_key name) flp
                  (stored_w (round_px rnd width) (round_px rnd height) unrot)
                  (stored_h (round_px rnd width) (round_px rnd height) unrot) (norm_angle angle) of
             Inl e \<Rightarrow> Inl e
           | Inr (img, W2) \<Rightarrow>
               Inr (W2, keyed self (ImageKey (ref_key name) flp
                  (stored_w (round_px rnd width) (round_px rnd height) unrot)
                  (stored_h (round_px rnd width) (round_px rnd height) unrot) (norm_angle angle)) img)))"
  by (cases name)
    (simp_all only: set_key_def ref_key_def ref_world_def round_px_def norm_angle_def stored_w_def
      stored_h_def keyed_def Let_def image_ref.case prod.case)

lemma set_key_steps:
  assumes "set_key rnd W self name flp width height angle = Inr (W2, self')"
  obtains unrot W1 img where
    "get_transform (ref_world W name) (ref_key name) flp (round_px rnd width) (round_px rnd height) 0
       = Inr (unrot, W1)"
    "get_transform W1 (ref_key name) flp (stored_w (round_px rnd width) (round_px rnd height) unrot)
       (stored_h (round_px rnd width) (round_px rnd height) unrot) (norm_angle angle) = Inr (img, W2)"
    "self' = keyed self (ImageKey (ref_key name) flp
                  (stored_w (round_px rnd width) (round_px rnd height) unrot)
                  (stored_h (round_px rnd width) (round_px rnd height) unrot) (norm_angle angle)) img"
  using assms unfolding set_key_alt by (auto split: sum.splits prod.splits)

subsection \<open>What \<open>set_key\<close> establishes\<close>

lemma cache_ok_ref_world: "cache_ok W \<Longrightarrow> cache_ok (ref_world W name)"
  by (cases name) (simp_all add: ref_world_def cache_ok_cache_surface)

lemma stored_settled:
  assumes "settled W k f w h 0 unrot"
  shows "settled W k f (stored_w w h unrot) (stored_h w h unrot) 0 unrot"
  using settled_unrot_any [OF assms] by (simp add: stored_w_def stored_h_def)

lemma stored_size:
  assumes "settled W k f w h 0 unrot" "cache_ok W"
  shows "stored_w w h unrot = int (get_width unrot)" "stored_h w h unrot = int (get_height unrot)"
  using settled_unrot [OF assms] by (simp_all add: stored_w_def stored_h_def)


lemma set_key_matches:
  assumes ok: "cache_ok W" and sk: "set_key rnd W self name flp width height angle = Inr (W2, self')"
  shows "key_matches_image W2 self' \<and> cache_ok W2"
proof -
  let ?k = "ref_key name" and ?w1 = "round_px rnd width" and ?h1 = "round_px rnd height"
  from sk obtain unrot W1 img where
    g1: "get_transform (ref_world W name) ?k flp ?w1 ?h1 0 = Inr (unrot, W1)"
    and g2: "get_transform W1 ?k flp (stored_w ?w1 ?h1 unrot) (stored_h ?w1 ?h1 unrot)
       (norm_angle angle) = Inr (img, W2)"
    and self': "self' = keyed self (ImageKey ?k flp (stored_w ?w1 ?h1 unrot)
       (stored_h ?w1 ?h1 unrot) (norm_angle angle)) img"
    by (rule set_key_steps)
  have ok1: "cache_ok W1" using cache_ok_ref_world [OF ok] g1 by (rule cache_ok_get_transform)
  have ok2: "cache_ok W2" using ok1 g2 by (rule cache_ok_get_transform)
  have s1: "settled W1 ?k flp ?w1 ?h1 0 unrot" using g1 by (rule get_transform_settles0)
  then have s2: "settled W1 ?k flp (stored_w ?w1 ?h1 unrot) (stored_h ?w1 ?h1 unrot) 0 unrot"
    by (rule stored_settled)
  then have "known_images W1 (ImageKey ?k flp (stored_w ?w1 ?h1 unrot) (stored_h ?w1 ?h1 unrot) 0)
      = Some unrot" by (simp add: settled_def)
  with get_transform_frame0 [OF s2 g2]
  have u: "known_images W2 (ImageKey ?k flp (stored_w ?w1 ?h1 unrot) (stored_h ?w1 ?h1 unrot) 0)
      = Some unrot" by simp
  have i: "known_images W2 (ImageKey ?k flp (stored_w ?w1 ?h1 unrot) (stored_h ?w1 ?h1 unrot)
      (norm_angle angle)) = Some img" using g2 by (rule get_transform_cached)
  have "key_matches_image W2 self'"
    unfolding key_matches_image_def self' keyed_def
    using u i stored_size [OF s1 ok1] by simp
  with ok2 show ?thesis by simp
qed

text \<open>A second \<open>set_key\<close> with the same image, flip and size and an angle that is the same modulo
  360 finds everything in the cache.\<close>

lemma ref_world_again:
  assumes "known_images W (ImageKey (ref_key name) False 0 0 0) \<noteq> None"
  shows "ref_world W name = W"
  using assms by (cases name) (simp_all add: ref_world_def ref_key_def cache_surface_old)

lemma ref_world_registered:
  "name = Surf s \<Longrightarrow> known_images (ref_world W name) (ImageKey (ref_key name) False 0 0 0) \<noteq> None"
  by (cases "known_images W (ImageKey (id_key s) False 0 0 0) = None")
    (simp_all add: ref_world_def ref_key_def cache_surface_old cache_surface_new)

lemma norm_angle_mod: "norm_angle a = py_int a mod 360"
  by (simp add: norm_angle_def)

lemma set_key_again:
  assumes sk: "set_key rnd W self name flp width height a = Inr (W2, self')"
    and ab: "py_int a mod 360 = py_int b mod 360"
  shows "set_key rnd W2 other name flp width height b =
     Inr (W2, keyed other (the (sb_key self')) (the (sb_image self')))"
proof -
  let ?k = "ref_key name" and ?w1 = "round_px rnd width" and ?h1 = "round_px rnd height"
  from sk obtain unrot W1 img where
    g1: "get_transform (ref_world W name) ?k flp ?w1 ?h1 0 = Inr (unrot, W1)"
    and g2: "get_transform W1 ?k flp (stored_w ?w1 ?h1 unrot) (stored_h ?w1 ?h1 unrot)
       (norm_angle a) = Inr (img, W2)"
    and self': "self' = keyed self (ImageKey ?k flp (stored_w ?w1 ?h1 unrot)
       (stored_h ?w1 ?h1 unrot) (norm_angle a)) img"
    by (rule set_key_steps)
  have nb: "norm_angle b = norm_angle a" using ab by (simp add: norm_angle_mod)
  have s1: "settled W1 ?k flp ?w1 ?h1 0 unrot" using g1 by (rule get_transform_settles0)
  then have s1': "settled W1 ?k flp (stored_w ?w1 ?h1 unrot) (stored_h ?w1 ?h1 unrot) 0 unrot"
    by (rule stored_settled)
  have "settled W2 ?k flp ?w1 ?h1 0 unrot"
    using s1 by (rule settled0_frame) (rule get_transform_frame0 [OF s1' g2])
  then have r1: "get_transform W2 ?k flp ?w1 ?h1 0 = Inr (unrot, W2)" by (rule settled_noop)
  have r2: "get_transform W2 ?k flp (stored_w ?w1 ?h1 unrot) (stored_h ?w1 ?h1 unrot)
       (norm_angle a) = Inr (img, W2)" using get_transform_settles [OF g2] by (rule settled_noop)
  have rw: "ref_world W2 name = W2"
  proof (cases name)
    case (Name n)
    then show ?thesis by (simp add: ref_world_def)
  next
    case (Surf s)
    from ref_world_registered [OF Surf, of W]
    have "known_images W1 (ImageKey ?k False 0 0 0) \<noteq> None" using g1 by (rule get_transform_keeps [rotated])
    then have "known_images W2 (ImageKey ?k False 0 0 0) \<noteq> None"
      using g2 by (rule get_transform_keeps [rotated])
    then show ?thesis by (rule ref_world_again)
  qed
  show ?thesis
    unfolding set_key_alt rw nb by (simp add: r1 r2 self' keyed_def)
qed

lemma norm_angle_range: "0 \<le> norm_angle a \<and> norm_angle a < 360"
  by (simp add: norm_angle_def)

lemma set_key_box:
  assumes "set_key rnd W self name flp width height a = Inr (W', self')"
  shows "\<exists>k img. self' = keyed self k img \<and> ik_angle k = norm_angle a \<and>
     known_images W' k = Some img"
proof -
  from assms obtain unrot W1 img where
    g2: "get_transform W1 (ref_key name) flp (stored_w (round_px rnd width) (round_px rnd height) unrot)
       (stored_h (round_px rnd width) (round_px rnd height) unrot) (norm_angle a) = Inr (img, W')"
    and self': "self' = keyed self (ImageKey (ref_key name) flp
       (stored_w (round_px rnd width) (round_px rnd height) unrot)
       (stored_h (round_px rnd width) (round_px rnd height) unrot) (norm_angle a)) img"
    by (rule set_key_steps)
  let ?k = "ImageKey (ref_key name) flp (stored_w (round_px rnd width) (round_px rnd height) unrot)
       (stored_h (round_px rnd width) (round_px rnd height) unrot) (norm_angle a)"
  have "self' = keyed self ?k img \<and> ik_angle ?k = norm_angle a \<and> known_images W' ?k = Some img"
    using get_transform_cached [OF g2] self' by simp
  then show ?thesis by blast
qed

subsection \<open>Every mutator and constructor goes through \<open>set_key\<close>\<close>

lemma mutate_is_set_key:
  assumes "mutate rnd m W self = Inr (W', self')"
    and "(sb_key self \<noteq> None \<and> sb_image self \<noteq> None) \<or> (\<exists>v. m = Set_image v)"
  shows "\<exists>name f w h a. set_key rnd W self name f w h a = Inr (W', self')"
proof (cases m)
  case Flip
  with assms show ?thesis by (fastforce simp: flip_def)
next
  case (Rotate a)
  with assms show ?thesis by (fastforce simp: rotate_def)
next
  case (Scale_by x)
  with assms show ?thesis by (fastforce simp: scale_by_def)
next
  case Full_size
  with assms show ?thesis by (fastforce simp: full_size_def)
next
  case (Set_size wv hv)
  with assms show ?thesis by (fastforce simp: set_size_def)
next
  case (Set_width v)
  with assms show ?thesis by (fastforce simp: set_width_def scale_by_def split: if_splits)
next
  case (Set_height v)
  with assms show ?thesis by (fastforce simp: set_height_def scale_by_def split: if_splits)
next
  case (Set_image v)
  with assms show ?thesis by (cases "sb_key self") (fastforce simp: set_image_def)+
qed

lemma mutate_matches:
  assumes "cache_ok W" "mutate rnd m W self = Inr (W', self')"
    and "(sb_key self \<noteq> None \<and> sb_image self \<noteq> None) \<or> (\<exists>v. m = Set_image v)"
  shows "key_matches_image W' self' \<and> cache_ok W'"
  using mutate_is_set_key [OF assms(2,3)] set_key_matches [OF assms(1)] by blast

lemma key_matches_image_backed:
  "key_matches_image W self \<Longrightarrow> sb_key self \<noteq> None \<and> sb_image self \<noteq> None"
  by (auto simp: key_matches_image_def split: option.splits image_key.splits)

lemma init_image_matches:
  assumes ok: "cache_ok W" and init: "init_image rnd W x y ref wo ho = Inr (W', self')"
  shows "key_matches_image W' self' \<and> cache_ok W'"
proof -
  let ?new = "\<lparr>sb_x = x, sb_y = y, sb_speedx = 0, sb_speedy = 0, sb_key = None,
       sb_image = None, sb_color = None, sb_w = 0, sb_h = 0\<rparr>"
  from init obtain W1 s1 where sk: "set_key rnd W ?new ref False 0 0 0 = Inr (W1, s1)"
    and rest: "(case wo of
             Some wv \<Rightarrow> (case ho of Some hv \<Rightarrow> set_size rnd W1 s1 (wv, hv) | None \<Rightarrow> set_width rnd W1 s1 wv)
           | None \<Rightarrow> (case ho of Some hv \<Rightarrow> set_height rnd W1 s1 hv | None \<Rightarrow> Inr (W1, s1)))
        = Inr (W', self')"
    by (auto simp: init_image_def split: sum.splits)
  from set_key_matches [OF ok sk] have m1: "key_matches_image W1 s1" and ok1: "cache_ok W1"
    by simp_all
  note backed = key_matches_image_backed [OF m1]
  show ?thesis
  proof (cases wo)
    case None
    show ?thesis
    proof (cases ho)
      case None
      with \<open>wo = None\<close> rest m1 ok1 show ?thesis by simp
    next
      case (Some hv)
      with \<open>wo = None\<close> rest have "mutate rnd (Set_height hv) W1 s1 = Inr (W', self')" by simp
      from mutate_matches [OF ok1 this] backed show ?thesis by blast
    qed
  next
    case (Some wv)
    show ?thesis
    proof (cases ho)
      case None
      with Some rest have "mutate rnd (Set_width wv) W1 s1 = Inr (W', self')" by simp
      from mutate_matches [OF ok1 this] backed show ?thesis by blast
    next
      case (Some hv)
      with \<open>wo = Some wv\<close> rest have "mutate rnd (Set_size wv hv) W1 s1 = Inr (W', self')" by simp
      from mutate_matches [OF ok1 this] backed show ?thesis by blast
    qed
  qed
qed

lemma from_image_matches:
  assumes ok: "cache_ok W" and fi: "from_image rnd W x y ref = Inr (W', self')"
  shows "key_matches_image W' self' \<and> cache_ok W'"
proof (cases ref)
  case (Surf s)
  with fi have "init_image rnd (cache_surface W s) x y (Surf s) None None = Inr (W', self')"
    by (simp add: from_image_def)
  from init_image_matches [OF cache_ok_cache_surface [OF ok] this] show ?thesis .
next
  case (Name n)
  with fi obtain img W1 where l: "load_filename_or_url W n = Inr (img, W1)"
    and i: "init_image rnd W1 x y (Surf img) None None = Inr (W', self')"
    by (auto simp: from_image_def split: sum.splits)
  from init_image_matches [OF cache_ok_load [OF ok l] i] show ?thesis .
qed

lemma cache_ok_empty: "known_images W = Map.empty \<Longrightarrow> cache_ok W"
  by (simp add: cache_ok_def)

section \<open>The claims on the transform cache\<close>

text \<open>
  Claim C1. For a key \<open>(source, flip, w, h, angle)\<close> that is not in the cache, \<open>get_transform\<close>
  resolves it in this order: when \<open>angle \<noteq> 0\<close> it resolves \<open>(source, flip, w, h, 0)\<close> and rotates
  the result by \<open>angle\<close>; else when \<open>w \<noteq> 0\<close> or \<open>h \<noteq> 0\<close> it resolves \<open>(source, flip, 0, 0, 0)\<close> and
  smooth-scales the result to \<open>(w, h)\<close>; else when \<open>flip\<close> it resolves \<open>(source, False, 0, 0, 0)\<close>
  and mirrors the result; else it asks the image source resolver. A failure of the inner step
  is the failure of the call, and in every case the image computed is in the cache under the
  requested key when the call returns. The right-hand side has no call left for the final
  block of the function: the state it leaves is written out.
\<close>

theorem get_transform_miss_case_order:
  assumes miss: "known_images W (ImageKey k f w h a) = None"
  shows "get_transform W k f w h a =
    (if a \<noteq> 0 then
       (case get_transform W k f w h 0 of
          Inl e \<Rightarrow> Inl e
        | Inr (base, W1) \<Rightarrow>
            (let (img, W2) = rotozoom W1 base a;
                 W3 = cache_put W2 (ImageKey k f w h a) img
             in Inr (img, if w = 0 \<and> h = 0
                          then cache_put W3
                                 (ImageKey k f (int (get_width base)) (int (get_height base)) a) img
                          else W3)))
     else if w \<noteq> 0 \<or> h \<noteq> 0 then
       (case get_transform W k f 0 0 0 of
          Inl e \<Rightarrow> Inl e
        | Inr (base, W1) \<Rightarrow>
            (case smoothscale W1 base w h of
               Inl e \<Rightarrow> Inl e
             | Inr (img, W2) \<Rightarrow> Inr (img, cache_put W2 (ImageKey k f w h a) img)))
     else if f then
       (case get_transform W k False 0 0 0 of
          Inl e \<Rightarrow> Inl e
        | Inr (base, W1) \<Rightarrow>
            (let (img, W2) = transform_flip W1 base;
                 W3 = cache_put W2 (ImageKey k f w h a) img
             in Inr (img, cache_put W3
                            (ImageKey k f (int (get_width img)) (int (get_height img)) a) img)))
     else
       (case load_filename_or_url W k of
          Inl e \<Rightarrow> Inl e
        | Inr (img, W1) \<Rightarrow>
            Inr (img, cache_put (cache_put W1 (ImageKey k f w h a) img)
                        (ImageKey k f (int (get_width img)) (int (get_height img)) a) img)))
    \<and> (\<forall>img W'. get_transform W k f w h a = Inr (img, W')
          \<longrightarrow> known_images W' (ImageKey k f w h a) = Some img)"
proof (rule conjI)
  show "\<forall>img W'. get_transform W k f w h a = Inr (img, W')
          \<longrightarrow> known_images W' (ImageKey k f w h a) = Some img"
    by (blast intro: get_transform_cached)
next
  consider (rot) "a \<noteq> 0" | (scale) "a = 0" "w \<noteq> 0 \<or> h \<noteq> 0" | (flp) "a = 0" "w = 0" "h = 0" "f"
    | (load) "a = 0" "w = 0" "h = 0" "\<not> f" by blast
  then show "get_transform W k f w h a =
    (if a \<noteq> 0 then
       (case get_transform W k f w h 0 of
          Inl e \<Rightarrow> Inl e
        | Inr (base, W1) \<Rightarrow>
            (let (img, W2) = rotozoom W1 base a;
                 W3 = cache_put W2 (ImageKey k f w h a) img
             in Inr (img, if w = 0 \<and> h = 0
                          then cache_put W3
                                 (ImageKey k f (int (get_width base)) (int (get_height base)) a) img
                          else W3)))
     else if w \<noteq> 0 \<or> h \<noteq> 0 then
       (case get_transform W k f 0 0 0 of
          Inl e \<Rightarrow> Inl e
        | Inr (base, W1) \<Rightarrow>
            (case smoothscale W1 base w h of
               Inl e \<Rightarrow> Inl e
             | Inr (img, W2) \<Rightarrow> Inr (img, cache_put W2 (ImageKey k f w h a) img)))
     else if f then
       (case get_transform W k False 0 0 0 of
          Inl e \<Rightarrow> Inl e
        | Inr (base, W1) \<Rightarrow>
            (let (img, W2) = transform_flip W1 base;
                 W3 = cache_put W2 (ImageKey k f w h a) img
             in Inr (img, cache_put W3
                            (ImageKey k f (int (get_width img)) (int (get_height img)) a) img)))
     else
       (case load_filename_or_url W k of
          Inl e \<Rightarrow> Inl e
        | Inr (img, W1) \<Rightarrow>
            Inr (img, cache_put (cache_put W1 (ImageKey k f w h a) img)
                        (ImageKey k f (int (get_width img)) (int (get_height img)) a) img)))"
  proof cases
    case rot
    show ?thesis
    proof (cases "get_transform W k f w h 0")
      case (Inl e)
      with rot have "resolve_miss W k f w h a = Inl e" by (simp add: resolve_miss_def)
      from get_transform_miss_error [OF miss this] rot Inl show ?thesis by simp
    next
      case (Inr p)
      obtain base W1 where p: "p = (base, W1)" by (cases p)
      from get_transform_rotate_miss [OF miss rot Inr [unfolded p]] rot Inr p
      show ?thesis by (simp add: Let_def split: prod.splits)
    qed
  next
    case scale
    have "get_transform W k f w h 0 =
       (case get_transform W k f 0 0 0 of
          Inl e \<Rightarrow> Inl e
        | Inr (base, W1) \<Rightarrow>
            (case smoothscale W1 base w h of
               Inl e \<Rightarrow> Inl e
             | Inr (img, W2) \<Rightarrow> Inr (img, cache_put W2 (ImageKey k f w h 0) img)))"
      using miss [unfolded scale(1)] scale(2)
      by (subst get_transform_unfold)
        (auto simp add: resolve_miss_def cache_at_size_def split: sum.splits)
    then show ?thesis unfolding scale(1) using scale(2) by auto
  next
    case flp
    have "get_transform W k True 0 0 0 =
       (case get_transform W k False 0 0 0 of
          Inl e \<Rightarrow> Inl e
        | Inr (base, W1) \<Rightarrow>
            (let (img, W2) = transform_flip W1 base;
                 W3 = cache_put W2 (ImageKey k True 0 0 0) img
             in Inr (img, cache_put W3
                            (ImageKey k True (int (get_width img)) (int (get_height img)) 0) img)))"
      using miss [unfolded flp(1,2,3) eqTrueI [OF flp(4)]]
      by (subst get_transform_unfold)
        (auto simp add: resolve_miss_def cache_at_size_def Let_def split: sum.splits prod.splits)
    then show ?thesis unfolding flp(1,2,3) eqTrueI [OF flp(4)] by simp
  next
    case load
    have "get_transform W k False 0 0 0 =
       (case load_filename_or_url W k of
          Inl e \<Rightarrow> Inl e
        | Inr (img, W1) \<Rightarrow>
            Inr (img, cache_put (cache_put W1 (ImageKey k False 0 0 0) img)
                        (ImageKey k False (int (get_width img)) (int (get_height img)) 0) img))"
      using miss [unfolded load(1,2,3) eq_False [THEN iffD2, OF load(4)]]
      by (subst get_transform_unfold)
        (auto simp add: resolve_miss_def cache_at_size_def split: sum.splits)
    then show ?thesis unfolding load(1,2,3) eq_False [THEN iffD2, OF load(4)] by simp
  qed
qed

theorem get_transform_miss_case_order_witness:
  "\<exists>img W'. get_transform demo_world ''a.png'' True 5 6 90 = Inr (img, W') \<and>
     img = Surface 3 11 11 (Rotozoom (Smoothscale (FlipH (Decoded 7)) 5 6) 90) \<and>
     known_images W' (ImageKey ''a.png'' True 5 6 90) = Some img"
proof -
  have m: "known_images demo_world (ImageKey ''a.png'' True 5 6 90) = None"
    by (simp add: demo_world_def)
  have c: "(case get_transform demo_world ''a.png'' True 5 6 90 of
       Inr (img, W') \<Rightarrow> img = Surface 3 11 11 (Rotozoom (Smoothscale (FlipH (Decoded 7)) 5 6) 90)
     | Inl e \<Rightarrow> False)"
    by code_simp
  from get_transform_miss_case_order [OF m]
  have k: "\<forall>img W'. get_transform demo_world ''a.png'' True 5 6 90 = Inr (img, W')
      \<longrightarrow> known_images W' (ImageKey ''a.png'' True 5 6 90) = Some img"
    by (rule conjunct2)
  show ?thesis
    using c k by (cases "get_transform demo_world ''a.png'' True 5 6 90") auto
qed

text \<open>
  Claim C2, as the code has it. A call of \<open>get_transform\<close> repeated at once with the same
  arguments returns the same image object and leaves the process state, and so the cache and
  its key set, exactly as the first call left it.
\<close>

theorem get_transform_repeat:
  assumes "get_transform W k f w h a = Inr (r, W')"
  shows "get_transform W' k f w h a = Inr (r, W')"
  using assms by (intro settled_noop get_transform_settles)

theorem get_transform_repeat_witness:
  "\<exists>img W'. get_transform demo_world ''a.png'' True 0 0 90 = Inr (img, W') \<and>
     get_transform W' ''a.png'' True 0 0 90 = Inr (img, W') \<and> sid img = 2"
proof -
  have c: "(case get_transform demo_world ''a.png'' True 0 0 90 of
       Inr (img, W') \<Rightarrow> sid img = 2 | Inl e \<Rightarrow> False)"
    by code_simp
  show ?thesis
  proof (cases "get_transform demo_world ''a.png'' True 0 0 90")
    case (Inl e)
    with c show ?thesis by simp
  next
    case (Inr p)
    obtain img W' where p: "p = (img, W')" by (cases p)
    from get_transform_repeat [OF Inr [unfolded p]] Inr p c show ?thesis by simp
  qed
qed

text \<open>
  Claim C2 as stated fails when another call comes between the two: with \<^verbatim>\<open>a.png\<close> of size
  10 by 20, the call for \<open>(a.png, False, 10, 20, 0)\<close> on an empty cache returns the scaled
  copy (object 1); the call for \<open>(a.png, False, 0, 0, 0)\<close> then stores the decoded image
  (object 0) under the key \<open>(a.png, False, 10, 20, 0)\<close>; and the repeated call for
  \<open>(a.png, False, 10, 20, 0)\<close> returns object 0, not the image the first call returned.
\<close>

theorem get_transform_repeat_counterexample:
  "(case get_transform demo_world ''a.png'' False 10 20 0 of
      Inr (r1, W1) \<Rightarrow>
        (case get_transform W1 ''a.png'' False 0 0 0 of
           Inr (r2, W2) \<Rightarrow>
             (case get_transform W2 ''a.png'' False 10 20 0 of
                Inr (r3, W3) \<Rightarrow> r3 \<noteq> r1 \<and> sid r1 = 1 \<and> sid r3 = 0 \<and> r3 = r2
              | Inl e \<Rightarrow> False)
         | Inl e \<Rightarrow> False)
    | Inl e \<Rightarrow> False)"
  by code_simp

text \<open>
  Claim C3. A call of \<open>get_transform\<close> with width 0 and height 0 leaves the answer in the cache
  under a second key as well, the one whose width and height are the pixel size of the
  zero-angle, same-flip intermediate \<open>tmp\<close>; a call with that key then returns the same object
  and changes nothing (no scaling, no new surface, no store). For angle 0 the intermediate is
  the answer itself: after \<open>get_transform(src, False, 0, 0, 0)\<close> returned an image of size
  \<open>(W, H)\<close>, \<open>get_transform(src, False, W, H, 0)\<close> returns that image.
\<close>

theorem get_transform_natural_size_alias:
  assumes "get_transform W k f 0 0 a = Inr (ans, W')"
  shows "\<exists>tmp. known_images W' (ImageKey k f 0 0 0) = Some tmp \<and>
           known_images W' (ImageKey k f (int (get_width tmp)) (int (get_height tmp)) a) = Some ans \<and>
           get_transform W' k f (int (get_width tmp)) (int (get_height tmp)) a = Inr (ans, W') \<and>
           (if a = 0 then tmp = ans \<and>
              get_transform W' k f (int (get_width ans)) (int (get_height ans)) 0 = Inr (ans, W')
            else True)"
proof -
  from assms have s: "settled W' k f 0 0 a ans" by (rule get_transform_settles)
  then obtain tmp where t0: "known_images W' (ImageKey k f 0 0 0) = Some tmp"
    and t2: "known_images W' (ImageKey k f (int (get_width tmp)) (int (get_height tmp)) a) = Some ans"
    and kk: "known_images W' (ImageKey k f 0 0 a) = Some ans"
    by (auto simp: settled_def)
  have again: "get_transform W' k f (int (get_width tmp)) (int (get_height tmp)) a = Inr (ans, W')"
  proof (cases "int (get_width tmp) = 0 \<and> int (get_height tmp) = 0")
    case True
    then show ?thesis using settled_noop [OF s] by simp
  next
    case False
    then show ?thesis using t2 by (intro get_transform_hit) auto
  qed
  have "tmp = ans" if "a = 0" using that t0 kk by simp
  then show ?thesis using t0 t2 again by auto
qed

theorem get_transform_natural_size_alias_witness:
  "\<exists>img W'. get_transform demo_world ''a.png'' False 0 0 0 = Inr (img, W') \<and>
     get_width img = 10 \<and> get_height img = 20 \<and>
     get_transform W' ''a.png'' False 10 20 0 = Inr (img, W')"
proof -
  have c: "(case get_transform demo_world ''a.png'' False 0 0 0 of
       Inr (img, W') \<Rightarrow> get_width img = 10 \<and> get_height img = 20 | Inl e \<Rightarrow> False)"
    by code_simp
  show ?thesis
  proof (cases "get_transform demo_world ''a.png'' False 0 0 0")
    case (Inl e)
    with c show ?thesis by simp
  next
    case (Inr p)
    obtain img W' where p: "p = (img, W')" by (cases p)
    from get_transform_natural_size_alias [OF Inr [unfolded p]] Inr p c show ?thesis by auto
  qed
qed

section \<open>The claims on the image source resolver\<close>

text \<open>
  Claim C5 fails on the code for a URL. \<^verbatim>\<open>_get_url\<close> hands the local file name (the basename
  of the URL's path) to \<^verbatim>\<open>_get_filename\<close>, which registers the image under that name: after
  \<^verbatim>\<open>load_filename_or_url\<close> has decoded \<^verbatim>\<open>http://h/b.png\<close> (3 by 4 pixels) the cache has the keys
  \<open>b.png\<close> and \<open>(b.png, 3, 4)\<close> and no key with the URL, and the same call again decodes the file
  once more and returns a new object.
\<close>

theorem load_url_not_cached_under_reference:
  "(case load_filename_or_url demo_world ''http://h/b.png'' of
      Inr (img1, W1) \<Rightarrow>
        known_images W1 (ImageKey ''http://h/b.png'' False 0 0 0) = None \<and>
        known_images W1 (ImageKey ''http://h/b.png'' False 3 4 0) = None \<and>
        known_images W1 (ImageKey ''b.png'' False 0 0 0) = Some img1 \<and>
        known_images W1 (ImageKey ''b.png'' False 3 4 0) = Some img1 \<and>
        (case load_filename_or_url W1 ''http://h/b.png'' of
           Inr (img2, W2) \<Rightarrow> img2 \<noteq> img1 \<and> sid img1 = 0 \<and> sid img2 = 1 \<and> next_id W2 = Suc (next_id W1)
         | Inl e \<Rightarrow> False)
    | Inl e \<Rightarrow> False)"
  by code_simp

text \<open>
  Claim C6, as the code has it. \<^verbatim>\<open>load_filename_or_url\<close> turns every \<^verbatim>\<open>OSError\<close> (a missing
  file, a download that fails with a \<^verbatim>\<open>URLError\<close>) into the one \<^verbatim>\<open>ValueError\<close> whose message holds
  the reference, and no \<^verbatim>\<open>OSError\<close> leaves it. An error of another class passes through
  unchanged: the \<^verbatim>\<open>pygame.error\<close> of data that does not decode, what \<^verbatim>\<open>urlparse\<close> raises for the
  reference, and what the download raises outside the \<^verbatim>\<open>OSError\<close> family (\<^verbatim>\<open>http.client.InvalidURL\<close>
  for a reference with a space). These are all the errors there are. (A call that returns an
  image raises nothing: its value is \<open>Inr\<close>.)
\<close>

theorem load_filename_or_url_errors:
  "(load_filename_or_url W n = Inl e \<longrightarrow>
      e \<noteq> OSError \<and> contains_str n (fetch_error_message n) \<and>
      known_images W (ImageKey n False 0 0 0) = None \<and>
      (e = ValueError (fetch_error_message n) \<or> e = PygameError \<or>
       files W n = None \<and> url_basename W n = Inl e \<or>
       files W n = None \<and>
         web W (if contains_str ''://'' n then n else ''http://'' @ n) = Inl e)) \<and>
   (known_images W (ImageKey n False 0 0 0) = None \<and> files W n = None \<and>
    url_basename W n = Inr fn \<and> files W fn = None \<and>
    web W (if contains_str ''://'' n then n else ''http://'' @ n) = Inl OSError \<longrightarrow>
      load_filename_or_url W n = Inl (ValueError (fetch_error_message n))) \<and>
   (known_images W (ImageKey n False 0 0 0) = None \<and> files W n = Some Garbage \<longrightarrow>
      load_filename_or_url W n = Inl PygameError) \<and>
   (known_images W (ImageKey n False 0 0 0) = None \<and> files W n = None \<and>
    url_basename W n = Inr fn \<and> files W fn = None \<and>
    web W (if contains_str ''://'' n then n else ''http://'' @ n) = Inl e \<and> e \<noteq> OSError \<longrightarrow>
      load_filename_or_url W n = Inl e) \<and>
   (known_images W (ImageKey n False 0 0 0) = None \<and> files W n = None \<and>
    url_basename W n = Inl e \<and> e \<noteq> OSError \<longrightarrow>
      load_filename_or_url W n = Inl e)"
proof -
  let ?u = "if contains_str ''://'' n then n else ''http://'' @ n"
  let ?inner = "if files W n \<noteq> None then get_filename W n else get_url W n"
  have 1: "e \<noteq> OSError \<and> contains_str n (fetch_error_message n) \<and>
      known_images W (ImageKey n False 0 0 0) = None \<and>
      (e = ValueError (fetch_error_message n) \<or> e = PygameError \<or>
       files W n = None \<and> url_basename W n = Inl e \<or>
       files W n = None \<and> web W ?u = Inl e)"
    if err: "load_filename_or_url W n = Inl e"
  proof -
    have k: "known_images W (ImageKey n False 0 0 0) = None"
      using err by (simp add: load_filename_or_url_def split: option.splits)
    obtain e' where e': "?inner = Inl e'"
      using err k by (auto simp: load_filename_or_url_def split: sum.splits)
    have conv: "e = (if e' = OSError then ValueError (fetch_error_message n) else e')"
      using err k e' by (auto simp add: load_filename_or_url_def split: pyexc.splits)
    have src: "e' = OSError \<or> e' = PygameError \<or>
       files W n = None \<and> url_basename W n = Inl e' \<or> files W n = None \<and> web W ?u = Inl e'"
    proof (cases "files W n = None")
      case True
      with e' have "get_url W n = Inl e'" by simp
      from get_url_error [OF this] True show ?thesis by blast
    next
      case False
      with e' have "get_filename W n = Inl e'" by simp
      from get_filename_error [OF this] show ?thesis by blast
    qed
    have "e \<noteq> OSError" using conv by (simp split: if_splits)
    moreover have "e = ValueError (fetch_error_message n) \<or> e = PygameError \<or>
       files W n = None \<and> url_basename W n = Inl e \<or> files W n = None \<and> web W ?u = Inl e"
      using conv src by (auto split: if_splits)
    ultimately show ?thesis using k message_has_reference [of n] by blast
  qed
  have 2: "load_filename_or_url W n = Inl (ValueError (fetch_error_message n))"
    if "known_images W (ImageKey n False 0 0 0) = None \<and> files W n = None \<and>
      url_basename W n = Inr fn \<and> files W fn = None \<and> web W ?u = Inl OSError"
    using that by (simp add: load_filename_or_url_def get_url_def urlretrieve_def)
  have 3: "load_filename_or_url W n = Inl PygameError"
    if "known_images W (ImageKey n False 0 0 0) = None \<and> files W n = Some Garbage"
    using that by (simp add: load_filename_or_url_def get_filename_def image_load_def)
  have 4: "load_filename_or_url W n = Inl e"
    if "known_images W (ImageKey n False 0 0 0) = None \<and> files W n = None \<and>
      url_basename W n = Inr fn \<and> files W fn = None \<and> web W ?u = Inl e \<and> e \<noteq> OSError"
    using that by (cases e) (simp_all add: load_filename_or_url_def get_url_def urlretrieve_def)
  have 5: "load_filename_or_url W n = Inl e"
    if "known_images W (ImageKey n False 0 0 0) = None \<and> files W n = None \<and>
      url_basename W n = Inl e \<and> e \<noteq> OSError"
    using that by (cases e) (simp_all add: load_filename_or_url_def get_url_def)
  from 1 2 3 4 5 show ?thesis by blast
qed

theorem load_filename_or_url_errors_witness:
  "load_filename_or_url demo_world ''nothere.png'' = Inl (ValueError (fetch_error_message ''nothere.png''))
   \<and> contains_str ''nothere.png'' (fetch_error_message ''nothere.png'')
   \<and> load_filename_or_url demo_world ''bad.png'' = Inl PygameError
   \<and> load_filename_or_url demo_world ''my sprite.png'' = Inl HTTPException
   \<and> load_filename_or_url demo_world ''http://[bad'' = Inl (ValueError ''Invalid IPv6 URL'')"
proof -
  have 1: "known_images demo_world (ImageKey ''nothere.png'' False 0 0 0) = None \<and>
    files demo_world ''nothere.png'' = None \<and>
    url_basename demo_world ''nothere.png'' = Inr ''nothere.png'' \<and>
    files demo_world ''nothere.png'' = None \<and>
    web demo_world (if contains_str ''://'' ''nothere.png'' then ''nothere.png''
      else ''http://'' @ ''nothere.png'') = Inl OSError"
    by (simp add: demo_world_def demo_web_def demo_basename_def basename_of_def)
  have 2: "known_images demo_world (ImageKey ''bad.png'' False 0 0 0) = None \<and>
    files demo_world ''bad.png'' = Some Garbage"
    by (simp add: demo_world_def)
  have 3: "known_images demo_world (ImageKey ''my sprite.png'' False 0 0 0) = None \<and>
    files demo_world ''my sprite.png'' = None \<and>
    url_basename demo_world ''my sprite.png'' = Inr ''my sprite.png'' \<and>
    files demo_world ''my sprite.png'' = None \<and>
    web demo_world (if contains_str ''://'' ''my sprite.png'' then ''my sprite.png''
      else ''http://'' @ ''my sprite.png'') = Inl HTTPException \<and> HTTPException \<noteq> OSError"
    by (simp add: demo_world_def demo_web_def demo_basename_def basename_of_def)
  have 4: "known_images demo_world (ImageKey ''http://[bad'' False 0 0 0) = None \<and>
    files demo_world ''http://[bad'' = None \<and>
    url_basename demo_world ''http://[bad'' = Inl (ValueError ''Invalid IPv6 URL'') \<and>
    ValueError ''Invalid IPv6 URL'' \<noteq> OSError"
    by (simp add: demo_world_def demo_basename_def)
  have a: "load_filename_or_url demo_world ''nothere.png''
      = Inl (ValueError (fetch_error_message ''nothere.png''))"
    using load_filename_or_url_errors [of demo_world "''nothere.png''"
      "ValueError (fetch_error_message ''nothere.png'')" "''nothere.png''"] 1 by blast
  have b: "contains_str ''nothere.png'' (fetch_error_message ''nothere.png'')"
    using load_filename_or_url_errors [of demo_world "''nothere.png''"
      "ValueError (fetch_error_message ''nothere.png'')" "''nothere.png''"] a by blast
  have c: "load_filename_or_url demo_world ''bad.png'' = Inl PygameError"
    using load_filename_or_url_errors [of demo_world "''bad.png''" PygameError] 2 by blast
  have d: "load_filename_or_url demo_world ''my sprite.png'' = Inl HTTPException"
    using load_filename_or_url_errors [of demo_world "''my sprite.png''" HTTPException
      "''my sprite.png''"] 3 by blast
  have e: "load_filename_or_url demo_world ''http://[bad'' = Inl (ValueError ''Invalid IPv6 URL'')"
    using load_filename_or_url_errors [of demo_world "''http://[bad''"
      "ValueError ''Invalid IPv6 URL''"] 4 by blast
  from a b c d e show ?thesis by (intro conjI)
qed

text \<open>
  Claim C6 as stated fails for corrupt image data: the file \<^verbatim>\<open>bad.png\<close> exists and does not
  decode, and the \<^verbatim>\<open>pygame.error\<close> of the decoder leaves \<^verbatim>\<open>load_filename_or_url\<close> as it is.
\<close>

theorem load_filename_or_url_leaks_pygame_error:
  "load_filename_or_url demo_world ''bad.png'' = Inl PygameError"
  by (simp add: load_filename_or_url_def get_filename_def image_load_def demo_world_def)

section \<open>The claims on SpriteBox keys\<close>

text \<open>
  Claim C4, as the code has it. The angle is normalised by \<^verbatim>\<open>SpriteBox._set_key\<close>, the caller
  of \<^verbatim>\<open>get_transform\<close>: the key it stores has the angle \<open>((int(angle) % 360) + 360) % 360\<close>, in
  \<open>[0, 360)\<close>, and the image it stores is the cache's entry for that key. A second
  \<^verbatim>\<open>_set_key\<close> with the same image, flip and size and any angle equal to the first modulo 360
  (as \<open>-10\<close> and \<open>350\<close> are) finds that entry: it gives the box the same key and the same image
  object and changes nothing in the cache.
\<close>

theorem set_key_normalises_angle:
  assumes "set_key rnd W self name flp width height a = Inr (W', self')"
  shows "\<exists>k img. sb_key self' = Some k \<and> sb_image self' = Some img \<and>
     ik_angle k = ((py_int a mod 360) + 360) mod 360 \<and> 0 \<le> ik_angle k \<and> ik_angle k < 360 \<and>
     known_images W' k = Some img \<and>
     (\<forall>b other. py_int b mod 360 = py_int a mod 360 \<longrightarrow>
        set_key rnd W' other name flp width height b = Inr (W', keyed other k img))"
proof -
  from set_key_box [OF assms] obtain k img where self': "self' = keyed self k img"
    and ang: "ik_angle k = norm_angle a" and kn: "known_images W' k = Some img" by blast
  have sel: "sb_key self' = Some k" "sb_image self' = Some img"
    by (simp_all add: self' keyed_def)
  have again: "set_key rnd W' other name flp width height b = Inr (W', keyed other k img)"
    if "py_int b mod 360 = py_int a mod 360" for b other
    using set_key_again [OF assms that [symmetric], of other] by (simp add: sel)
  show ?thesis
    using sel ang kn again norm_angle_range [of a] by (auto simp: norm_angle_def)
qed

theorem set_key_normalises_angle_witness:
  "\<exists>W' self' img. set_key round_binary64 demo_world (from_color 0 0 (ColorInt 0) 1 1) (Name ''a.png'') False 0 0 (-10)
       = Inr (W', self') \<and>
     sb_key self' = Some (ImageKey ''a.png'' False 10 20 350) \<and> sb_image self' = Some img \<and>
     set_key round_binary64 W' self' (Name ''a.png'') False 0 0 350 = Inr (W', self')"
proof -
  let ?box = "from_color 0 0 (ColorInt 0) 1 1"
  have c: "(case set_key round_binary64 demo_world ?box (Name ''a.png'') False 0 0 (-10) of
       Inr (W', s') \<Rightarrow> sb_key s' = Some (ImageKey ''a.png'' False 10 20 350)
     | Inl e \<Rightarrow> False)"
    by code_simp
  have m: "py_int 350 mod 360 = py_int (-10) mod 360" by (simp add: py_int_def)
  show ?thesis
  proof (cases "set_key round_binary64 demo_world ?box (Name ''a.png'') False 0 0 (-10)")
    case (Inl e)
    with c show ?thesis by simp
  next
    case (Inr p)
    obtain W' self' where p: "p = (W', self')" by (cases p)
    from set_key_normalises_angle [OF Inr [unfolded p]] obtain k img where
      k: "sb_key self' = Some k" "sb_image self' = Some img"
      and again: "\<forall>b other. py_int b mod 360 = py_int (-10) mod 360 \<longrightarrow>
        set_key round_binary64 W' other (Name ''a.png'') False 0 0 b = Inr (W', keyed other k img)"
      by blast
    from set_key_box [OF Inr [unfolded p]] k have "keyed self' k img = self'"
      by (auto simp: keyed_def)
    with again m have "set_key round_binary64 W' self' (Name ''a.png'') False 0 0 350 = Inr (W', self')"
      by metis
    with Inr p c k show ?thesis by auto
  qed
qed

text \<open>
  Claim C4 as stated fails: \<^verbatim>\<open>get_transform\<close> itself looks its angle up as it is given.
  After \<open>get_transform(a.png, False, 0, 0, -10)\<close> the key with angle 350 is not in the cache,
  and \<open>get_transform(a.png, False, 0, 0, 350)\<close> makes a second rotated image, another object
  under another key.
\<close>

theorem get_transform_angle_counterexample:
  "(case get_transform demo_world ''a.png'' False 0 0 (-10) of
     Inr (r1, W1) \<Rightarrow>
       (case get_transform W1 ''a.png'' False 0 0 350 of
          Inr (r2, W2) \<Rightarrow> r1 \<noteq> r2 \<and> known_images W1 (ImageKey ''a.png'' False 0 0 350) = None
            \<and> known_images W2 (ImageKey ''a.png'' False 0 0 350) = Some r2
            \<and> known_images W2 (ImageKey ''a.png'' False 0 0 (-10)) = Some r1
            \<and> pixels r1 = Rotozoom (Decoded 7) (-10) \<and> pixels r2 = Rotozoom (Decoded 7) 350
        | Inl e \<Rightarrow> False)
   | Inl e \<Rightarrow> False)"
  by code_simp

text \<open>
  Claim C10. Let the cache be one in which every unrotated entry stored under an explicit size
  has that size (\<open>cache_ok\<close>: true of the empty cache and kept by every function here). After
  the construction of a box from an image, and after \<open>flip\<close>, \<open>rotate\<close>, \<open>scale_by\<close>,
  \<open>full_size\<close> and the setters of size, width, height and image on a box that has a key and
  an image, the box's key names the width and height of the unrotated image the cache holds
  for it, the box's image is the cache's entry for the key, and the box's width and height are
  those of that (rotated) image. So the key's size is \<open>(0, 0)\<close> only when the unrotated image
  itself has no pixels, also after a request for width 0 and height 0.
\<close>

theorem key_matches_image_invariant:
  assumes "cache_ok W"
  shows "(from_image rnd W x y ref = Inr (W', self') \<longrightarrow> key_matches_image W' self' \<and> cache_ok W') \<and>
     (init_image rnd W x y ref wo ho = Inr (W', self') \<longrightarrow> key_matches_image W' self' \<and> cache_ok W') \<and>
     (mutate rnd m W self = Inr (W', self') \<and> sb_key self \<noteq> None \<and> sb_image self \<noteq> None
        \<longrightarrow> key_matches_image W' self' \<and> cache_ok W') \<and>
     (key_matches_image W' self' \<longrightarrow>
        (\<exists>k f w h a img unrot. sb_key self' = Some (ImageKey k f w h a) \<and> sb_image self' = Some img \<and>
           known_images W' (ImageKey k f w h a) = Some img \<and>
           known_images W' (ImageKey k f w h 0) = Some unrot \<and>
           w = int (get_width unrot) \<and> h = int (get_height unrot) \<and>
           sb_w self' = real (get_width img) \<and> sb_h self' = real (get_height img) \<and>
           (if get_width unrot = 0 \<and> get_height unrot = 0 then w = 0 \<and> h = 0
            else w \<noteq> 0 \<or> h \<noteq> 0)))"
proof -
  have 1: "from_image rnd W x y ref = Inr (W', self') \<longrightarrow> key_matches_image W' self' \<and> cache_ok W'"
    using from_image_matches [OF assms] by blast
  have 2: "init_image rnd W x y ref wo ho = Inr (W', self') \<longrightarrow> key_matches_image W' self' \<and> cache_ok W'"
    using init_image_matches [OF assms] by blast
  have 3: "mutate rnd m W self = Inr (W', self') \<and> sb_key self \<noteq> None \<and> sb_image self \<noteq> None
        \<longrightarrow> key_matches_image W' self' \<and> cache_ok W'"
    using mutate_matches [OF assms, of rnd m self W' self'] by blast
  have 4: "key_matches_image W' self' \<longrightarrow> (\<exists>k f w h a img unrot. sb_key self' = Some (ImageKey k f w h a) \<and> sb_image self' = Some img \<and>
           known_images W' (ImageKey k f w h a) = Some img \<and>
           known_images W' (ImageKey k f w h 0) = Some unrot \<and>
           w = int (get_width unrot) \<and> h = int (get_height unrot) \<and>
           sb_w self' = real (get_width img) \<and> sb_h self' = real (get_height img) \<and>
           (if get_width unrot = 0 \<and> get_height unrot = 0 then w = 0 \<and> h = 0
            else w \<noteq> 0 \<or> h \<noteq> 0))"
  proof
    assume "key_matches_image W' self'"
    then obtain k f w h a img unrot where f: "sb_key self' = Some (ImageKey k f w h a)"
      "sb_image self' = Some img" "known_images W' (ImageKey k f w h a) = Some img"
      "known_images W' (ImageKey k f w h 0) = Some unrot"
      "w = int (get_width unrot)" "h = int (get_height unrot)"
      "sb_w self' = real (get_width img)" "sb_h self' = real (get_height img)"
      unfolding key_matches_image_def by (auto split: option.splits image_key.splits)
    from f(5,6) have "if get_width unrot = 0 \<and> get_height unrot = 0 then w = 0 \<and> h = 0
            else w \<noteq> 0 \<or> h \<noteq> 0" by auto
    with f show "\<exists>k f w h a img unrot. sb_key self' = Some (ImageKey k f w h a) \<and> sb_image self' = Some img \<and>
           known_images W' (ImageKey k f w h a) = Some img \<and>
           known_images W' (ImageKey k f w h 0) = Some unrot \<and>
           w = int (get_width unrot) \<and> h = int (get_height unrot) \<and>
           sb_w self' = real (get_width img) \<and> sb_h self' = real (get_height img) \<and>
           (if get_width unrot = 0 \<and> get_height unrot = 0 then w = 0 \<and> h = 0
            else w \<noteq> 0 \<or> h \<noteq> 0)" by blast
  qed
  from 1 2 3 4 show ?thesis by (intro conjI)
qed

theorem key_matches_image_invariant_witness:
  "\<exists>W1 s1 W2 s2. from_image round_binary64 demo_world 0 0 (Name ''a.png'') = Inr (W1, s1) \<and>
     key_matches_image W1 s1 \<and> sb_key s1 = Some (ImageKey ''__id__0'' False 10 20 0) \<and>
     mutate round_binary64 (Rotate 90) W1 s1 = Inr (W2, s2) \<and>
     key_matches_image W2 s2 \<and> sb_key s2 = Some (ImageKey ''__id__0'' False 10 20 90) \<and>
     sb_w s2 = 30 \<and> sb_h s2 = 30"
proof -
  have ok0: "cache_ok demo_world" by (rule cache_ok_empty) (simp add: demo_world_def)
  have c: "(case from_image round_binary64 demo_world 0 0 (Name ''a.png'') of
       Inr (W1, s1) \<Rightarrow> sb_key s1 = Some (ImageKey ''__id__0'' False 10 20 0) \<and> sb_image s1 \<noteq> None \<and>
         (case mutate round_binary64 (Rotate 90) W1 s1 of
            Inr (W2, s2) \<Rightarrow> sb_key s2 = Some (ImageKey ''__id__0'' False 10 20 90) \<and>
              sb_w s2 = 30 \<and> sb_h s2 = 30
          | Inl e \<Rightarrow> False)
     | Inl e \<Rightarrow> False)"
    by code_simp
  show ?thesis
  proof (cases "from_image round_binary64 demo_world 0 0 (Name ''a.png'')")
    case (Inl e)
    with c show ?thesis by simp
  next
    case (Inr p)
    obtain W1 s1 where p: "p = (W1, s1)" by (cases p)
    note f = Inr [unfolded p]
    from key_matches_image_invariant [OF ok0, of round_binary64 0 0 "Name ''a.png''" W1 s1] f
    have m1: "key_matches_image W1 s1" and ok1: "cache_ok W1" by blast+
    from c f have k1: "sb_key s1 = Some (ImageKey ''__id__0'' False 10 20 0)"
      and i1: "sb_image s1 \<noteq> None"
      and c2: "(case mutate round_binary64 (Rotate 90) W1 s1 of
            Inr (W2, s2) \<Rightarrow> sb_key s2 = Some (ImageKey ''__id__0'' False 10 20 90) \<and>
              sb_w s2 = 30 \<and> sb_h s2 = 30
          | Inl e \<Rightarrow> False)" by simp_all
    show ?thesis
    proof (cases "mutate round_binary64 (Rotate 90) W1 s1")
      case (Inl e)
      with c2 show ?thesis by simp
    next
      case (Inr q)
      obtain W2 s2 where q: "q = (W2, s2)" by (cases q)
      note g = Inr [unfolded q]
      from key_matches_image_invariant [OF ok1, of round_binary64 _ _ _ W2 s2 _ _ "Rotate 90" s1] g k1 i1
      have m2: "key_matches_image W2 s2" by simp
      from c2 g have "sb_key s2 = Some (ImageKey ''__id__0'' False 10 20 90)"
        "sb_w s2 = 30" "sb_h s2 = 30" by simp_all
      with f m1 k1 g m2 show ?thesis by blast
    qed
  qed
qed

end
